theory Spec2Isabelle
  imports Main
begin

section \<open>JavaScript values\<close>

text \<open>
  The values that flow through the word collection: the JSON-shaped values plus
  \<open>undefined\<close>. Numbers are the integers (word numbers and counts are the only numbers
  the operations compute). Strings are lists of code units below 256.
  An object (a word, the input of \<open>addWord\<close>, the patch of \<open>updateWord\<close>) is a partial map
  from property names to values; reading a missing property gives \<open>undefined\<close>.
\<close>

datatype jsval =
    JUndefined
  | JNull
  | JBool bool
  | JNum int
  | JStr string
  | JArr "jsval list"

type_synonym obj = "string \<rightharpoonup> jsval"

datatype js_error = JsError (err_name: string) (err_message: string)

definition get :: "obj \<Rightarrow> string \<Rightarrow> jsval" where
  "get ob k = (case ob k of None \<Rightarrow> JUndefined | Some v \<Rightarrow> v)"

text \<open>Truthiness, as \<open>||\<close>, \<open>&&\<close>, \<open>!\<close> and \<open>filter(Boolean)\<close> test it.\<close>

fun truthy :: "jsval \<Rightarrow> bool" where
  "truthy JUndefined = False"
| "truthy JNull = False"
| "truthy (JBool b) = b"
| "truthy (JNum n) = (n \<noteq> 0)"
| "truthy (JStr s) = (s \<noteq> [])"
| "truthy (JArr xs) = True"

definition js_or :: "jsval \<Rightarrow> jsval \<Rightarrow> jsval" where
  "js_or a b = (if truthy a then a else b)"

text \<open>
  Strict equality \<open>===\<close>. Primitives compare by value. Arrays compare by reference, and
  the two sides of every comparison in the operations below come from different
  objects (distinct elements of a freshly parsed collection, or a caller's argument against
  an element), so an array is never strictly equal to anything there.
\<close>

fun strict_eq :: "jsval \<Rightarrow> jsval \<Rightarrow> bool" where
  "strict_eq (JArr xs) b = False"
| "strict_eq a (JArr ys) = False"
| "strict_eq a b = (a = b)"

section \<open>String helpers: \<open>trim\<close> and \<open>split(',')\<close>\<close>

text \<open>White space and line terminators of ECMAScript among the code units below 256:
  TAB, LF, VT, FF, CR, SPACE and NBSP.\<close>

definition is_ws :: "char \<Rightarrow> bool" where
  "is_ws c = (c \<in> set [CHR 0x09, CHR 0x0A, CHR 0x0B, CHR 0x0C, CHR 0x0D, CHR 0x20, CHR 0xA0])"

definition trim :: "string \<Rightarrow> string" where
  "trim s = rev (dropWhile is_ws (rev (dropWhile is_ws s)))"

text \<open>\<open>s.split(c)\<close> for a one-character separator: always at least one segment.\<close>

fun split_on :: "char \<Rightarrow> string \<Rightarrow> string list" where
  "split_on c [] = [[]]"
| "split_on c (x # xs) =
     (if x = c then [] # split_on c xs
      else (let r = split_on c xs in (x # hd r) # tl r))"

section \<open>\<open>ApiManager.parseArrayField\<close>\<close>

text \<open>
  The callback \<open>item => item && item.trim()\<close> of the array branch: a falsy item is dropped,
  a string is kept when its trimmed form is non-empty, and any other truthy item has no
  \<open>trim\<close> method, so the call raises a TypeError.
\<close>

fun keep_item :: "jsval \<Rightarrow> js_error + bool" where
  "keep_item (JStr s) = Inr (s \<noteq> [] \<and> trim s \<noteq> [])"
| "keep_item item =
     (if \<not> truthy item then Inr False
      else Inl (JsError ''TypeError'' ''item.trim is not a function''))"

fun filter_items :: "jsval list \<Rightarrow> js_error + jsval list" where
  "filter_items [] = Inr []"
| "filter_items (x # xs) =
     (case keep_item x of
        Inl e \<Rightarrow> Inl e
      | Inr b \<Rightarrow>
          (case filter_items xs of
             Inl e \<Rightarrow> Inl e
           | Inr ys \<Rightarrow> Inr (if b then x # ys else ys)))"

fun parseArrayField :: "jsval \<Rightarrow> js_error + jsval list" where
  "parseArrayField (JArr items) = filter_items items"
| "parseArrayField (JStr s) =
     (if trim s \<noteq> []
      then Inr (map JStr (filter (\<lambda>t. t \<noteq> []) (map trim (split_on CHR '','' s))))
      else Inr [])"
| "parseArrayField field = Inr []"


text \<open>The inverse of \<open>split_on\<close>, used only to state that the split loses nothing.\<close>

fun join_on :: "char \<Rightarrow> string list \<Rightarrow> string" where
  "join_on c [] = []"
| "join_on c [s] = s"
| "join_on c (s # t # ss) = s @ c # join_on c (t # ss)"

section \<open>Dates: \<open>Date.prototype.toISOString\<close> and \<open>StorageManager.getDateString\<close>\<close>

text \<open>
  A time value is a number of milliseconds since 1970-01-01T00:00:00Z. Its day number is the
  floor of the quotient by \<open>msPerDay\<close>. The civil date of a day number is computed in the
  proleptic Gregorian calendar on years that start on 1 March (so that a leap day is the
  last day of its year): a day is located in its 400-year era, then in its century, its
  4-year cycle and its year, and the day of that year gives month and day.
\<close>

definition msPerDay :: int where
  "msPerDay = 86400000"

definition civil_from_days :: "int \<Rightarrow> int \<times> int \<times> int" where
  "civil_from_days z0 =
     (let z = z0 + 719468;
          era = z div 146097;
          doe = z mod 146097;
          c = min (doe div 36524) 3;
          r1 = doe - 36524 * c;
          q = r1 div 1461;
          r2 = r1 mod 1461;
          n = min (r2 div 365) 3;
          doy = r2 - 365 * n;
          yoe = 100 * c + 4 * q + n;
          mp = (5 * doy + 2) div 153;
          d = doy - (153 * mp + 2) div 5 + 1;
          m = (if mp < 10 then mp + 3 else mp - 9);
          y = yoe + era * 400
      in (if m \<le> 2 then y + 1 else y, m, d))"

text \<open>The inverse direction, used only to state that distinct days have distinct dates.\<close>

definition days_from_civil :: "int \<times> int \<times> int \<Rightarrow> int" where
  "days_from_civil ymd =
     (case ymd of (y0, m, d) \<Rightarrow>
        (let y = (if m \<le> 2 then y0 - 1 else y0);
             era = y div 400;
             yoe = y mod 400;
             doy = (153 * (if m > 2 then m - 3 else m + 9) + 2) div 5 + d - 1;
             doe = yoe * 365 + yoe div 4 - yoe div 100 + doy
         in era * 146097 + doe - 719468))"

definition digit :: "int \<Rightarrow> char" where
  "digit n = ''0123456789'' ! nat (n mod 10)"

definition pad2 :: "int \<Rightarrow> string" where
  "pad2 n = [digit (n div 10), digit n]"

definition pad3 :: "int \<Rightarrow> string" where
  "pad3 n = [digit (n div 100), digit (n div 10), digit n]"

definition pad4 :: "int \<Rightarrow> string" where
  "pad4 n = [digit (n div 1000), digit (n div 100), digit (n div 10), digit n]"

definition pad6 :: "int \<Rightarrow> string" where
  "pad6 n = [digit (n div 100000), digit (n div 10000), digit (n div 1000),
             digit (n div 100), digit (n div 10), digit n]"

text \<open>Years 0 to 9999 print with four digits, all others with a sign and six digits.\<close>

definition year_str :: "int \<Rightarrow> string" where
  "year_str y =
     (if 0 \<le> y \<and> y \<le> 9999 then pad4 y
      else (if y < 0 then CHR ''-'' else CHR ''+'') # pad6 \<bar>y\<bar>)"

definition date_str :: "int \<times> int \<times> int \<Rightarrow> string" where
  "date_str ymd = (case ymd of (y, m, d) \<Rightarrow> year_str y @ ''-'' @ pad2 m @ ''-'' @ pad2 d)"

definition time_str :: "int \<Rightarrow> string" where
  "time_str r =
     pad2 (r div 3600000) @ '':'' @ pad2 (r div 60000 mod 60) @ '':'' @
     pad2 (r div 1000 mod 60) @ ''.'' @ pad3 (r mod 1000)"

definition toISOString :: "int \<Rightarrow> string" where
  "toISOString t =
     date_str (civil_from_days (t div msPerDay)) @ ''T'' @ time_str (t mod msPerDay) @ ''Z''"

text \<open>\<open>date.toISOString().split('T')[0]\<close>\<close>

definition getDateString :: "int \<Rightarrow> string" where
  "getDateString t = hd (split_on CHR ''T'' (toISOString t))"

text \<open>The time values a \<open>Date\<close> can hold; \<open>toISOString\<close> is defined on exactly these.\<close>

definition valid_time :: "int \<Rightarrow> bool" where
  "valid_time t = (\<bar>t\<bar> \<le> 8640000000000000)"

section \<open>The environment: storage, clock, random source and network\<close>

text \<open>
  The state the two modules act on. \<open>apiKey\<close> and \<open>binId\<close> are the stored credentials
  as \<open>getApiCredentials\<close> returns them (the empty string when the item is not set).
  \<open>localWords\<close> is the parsed content of the \<open>vocab_local_words\<close> item (the empty list
  when it is not set or does not parse) and \<open>streakData\<close> that of \<open>vocab_streak_data\<close>
  (\<open>None\<close> when it is not set or does not parse). Writes to local storage are taken to
  succeed; the handlers around them only log.

  \<open>clock\<close> is the time value that \<open>new Date()\<close> and \<open>Date.now()\<close> read; one operation
  reads one instant. \<open>random k\<close> is the value of \<open>Math.random() * 16 | 0\<close> at its
  \<open>k\<close>-th call. \<open>network k\<close> is what happens to the \<open>k\<close>-th call of \<open>fetch\<close>;
  \<open>trace\<close> lists, oldest first, the requests sent and the timers awaited.
\<close>

text \<open>The stored streak has the shape \<open>updateStreak\<close> writes: a count and a date
  string, or \<open>null\<close> (\<open>None\<close>) for the date of a first-time user.\<close>

record streak =
  currentStreak :: int
  lastActiveDate :: "string option"

text \<open>The parsed body of a successful response: \<open>record_words\<close> is the array
  \<open>result.record?.words\<close>, \<open>None\<close> when that expression is \<open>undefined\<close> or falsy.\<close>

datatype response = Response (record_words: "obj list option")

text \<open>
  What one call of \<open>fetch\<close> leads to inside \<open>request\<close>: the call is rejected with an
  error; or the response is not ok (with the \<open>message\<close> of its error body, empty when it
  has none, and the status code as printed); or the response is ok but reading its body
  is rejected with an error; or the response is ok and its body parses.
  A request is recorded with its method (\<open>GET\<close> when the options give none), address,
  \<open>X-Master-Key\<close> header and body; the body of a save holds the words, \<open>meta.totalWords\<close>
  and \<open>meta.lastUpdated\<close>.
\<close>

datatype fetch_outcome =
    FetchRejected js_error
  | HttpNotOk string string
  | JsonRejected js_error
  | JsonOk response

datatype body =
    NoBody
  | WordsBody "obj list" int string

record http_request =
  req_method :: string
  req_url :: string
  req_masterKey :: string
  req_body :: body

datatype event =
    Fetch http_request
  | Sleep nat

record world =
  apiKey :: string
  binId :: string
  localWords :: "obj list"
  streakData :: "streak option"
  clock :: int
  random :: "nat \<Rightarrow> nat"
  randomCalls :: nat
  network :: "nat \<Rightarrow> fetch_outcome"
  fetchCalls :: nat
  trace :: "event list"

section \<open>\<open>StorageManager\<close>\<close>

definition getLocalWords :: "world \<Rightarrow> obj list" where
  "getLocalWords w = localWords w"

definition saveLocalWords :: "obj list \<Rightarrow> world \<Rightarrow> world" where
  "saveLocalWords ws w = w\<lparr>localWords := ws\<rparr>"

definition hasApiCredentials :: "world \<Rightarrow> bool" where
  "hasApiCredentials w = (apiKey w \<noteq> [] \<and> binId w \<noteq> [])"

definition getStreakData :: "world \<Rightarrow> streak" where
  "getStreakData w =
     (case streakData w of
        Some d \<Rightarrow> d
      | None \<Rightarrow> \<lparr>currentStreak = 0, lastActiveDate = None\<rparr>)"

text \<open>\<open>updateStreak\<close> returns the streak count and the state after the call.\<close>

definition updateStreak :: "world \<Rightarrow> int \<times> world" where
  "updateStreak w =
     (let today = getDateString (clock w);
          sd = getStreakData w;
          lastActive = lastActiveDate sd
      in if lastActive = Some today then (currentStreak sd, w)
         else
           (let yesterday = getDateString (clock w - 86400000);
                newStreak =
                  (if lastActive = Some yesterday then currentStreak sd + 1
                   else if lastActive = None \<or> lastActive = Some [] then 1
                   else 1)
            in (newStreak,
                w\<lparr>streakData :=
                    Some \<lparr>currentStreak = newStreak, lastActiveDate = Some today\<rparr>\<rparr>)))"

text \<open>
  \<open>generateId\<close> fills the template from left to right: an \<open>x\<close> becomes the hexadecimal
  digit of the next random value \<open>r\<close>, a \<open>y\<close> that of \<open>r & 0x3 | 0x8\<close>, every other
  character stays.
\<close>

definition hex_digit :: "nat \<Rightarrow> char" where
  "hex_digit v = ''0123456789abcdef'' ! (v mod 16)"

fun fill_template :: "string \<Rightarrow> (nat \<Rightarrow> nat) \<Rightarrow> nat \<Rightarrow> string \<times> nat" where
  "fill_template [] rnd k = ([], k)"
| "fill_template (c # cs) rnd k =
     (if c = CHR ''x'' then
        (let (s, k') = fill_template cs rnd (k + 1) in (hex_digit (rnd k mod 16) # s, k'))
      else if c = CHR ''y'' then
        (let (s, k') = fill_template cs rnd (k + 1)
         in (hex_digit ((rnd k mod 16) mod 4 + 8) # s, k'))
      else
        (let (s, k') = fill_template cs rnd k in (c # s, k')))"

definition generateId :: "world \<Rightarrow> string \<times> world" where
  "generateId w =
     (let (s, k) = fill_template ''xxxxxxxx-xxxx-4xxx-yxxx-xxxxxxxxxxxx'' (random w) (randomCalls w)
      in (s, w\<lparr>randomCalls := k\<rparr>))"

section \<open>\<open>ApiManager\<close>: requests\<close>

definition BASE_URL :: string where
  "BASE_URL = ''https://api.jsonbin.io/v3''"

text \<open>One attempt: what the body of the \<open>try\<close> block of \<open>request\<close> returns or throws.\<close>

fun attempt :: "fetch_outcome \<Rightarrow> js_error + response" where
  "attempt (FetchRejected e) = Inl e"
| "attempt (HttpNotOk msg status) =
     Inl (JsError ''Error'' (if msg \<noteq> [] then msg else ''HTTP error '' @ status))"
| "attempt (JsonRejected e) = Inl e"
| "attempt (JsonOk r) = Inr r"

fun request :: "string \<Rightarrow> string \<Rightarrow> body \<Rightarrow> nat \<Rightarrow> world \<Rightarrow> (js_error + response) \<times> world" where
  "request url meth bdy retries w =
     (let w1 = w\<lparr>fetchCalls := fetchCalls w + 1,
                  trace := trace w @
                    [Fetch \<lparr>req_method = meth, req_url = url,
                            req_masterKey = apiKey w, req_body = bdy\<rparr>]\<rparr>
      in case attempt (network w (fetchCalls w)) of
           Inr r \<Rightarrow> (Inr r, w1)
         | Inl e \<Rightarrow>
             (if retries > 0 \<and> err_name e \<noteq> ''AbortError''
              then request url meth bdy (retries - 1) (w1\<lparr>trace := trace w1 @ [Sleep 1000]\<rparr>)
              else (Inl e, w1)))"

definition fetchAllWords :: "world \<Rightarrow> obj list \<times> world" where
  "fetchAllWords w =
     (if binId w = [] then (getLocalWords w, w)
      else
        (case request (BASE_URL @ ''/b/'' @ binId w @ ''/latest'') ''GET'' NoBody 2 w of
           (Inr result, w1) \<Rightarrow>
             (let words = (case record_words result of Some ws \<Rightarrow> ws | None \<Rightarrow> [])
              in (words, saveLocalWords words w1))
         | (Inl e, w1) \<Rightarrow> (getLocalWords w1, w1)))"

definition fetchWordsByDate :: "jsval \<Rightarrow> world \<Rightarrow> obj list \<times> world" where
  "fetchWordsByDate dateString w =
     (let (allWords, w1) = fetchAllWords w
      in (filter (\<lambda>word. strict_eq (get word ''date'') dateString) allWords, w1))"

definition saveAllWords :: "obj list \<Rightarrow> world \<Rightarrow> bool \<times> world" where
  "saveAllWords words w =
     (if binId w = [] then (True, saveLocalWords words w)
      else
        (case request (BASE_URL @ ''/b/'' @ binId w) ''PUT''
                (WordsBody words (int (length words)) (toISOString (clock w))) 2 w of
           (Inr result, w1) \<Rightarrow> (True, saveLocalWords words w1)
         | (Inl e, w1) \<Rightarrow> (False, saveLocalWords words w1)))"


section \<open>\<open>ApiManager\<close>: word operations\<close>

definition getNextWordNumber :: "obj list \<Rightarrow> jsval \<Rightarrow> int" where
  "getNextWordNumber allWords date =
     int (length (filter (\<lambda>w. strict_eq (get w ''date'') date) allWords)) + 1"

definition not_found :: js_error where
  "not_found = JsError ''Error'' ''Word not found''"

text \<open>
  \<open>addWord\<close> returns the new word, or the TypeError that \<open>parseArrayField\<close> raised while
  the object literal was being evaluated (after the id was generated, before anything
  was saved).
\<close>

definition addWord :: "obj \<Rightarrow> world \<Rightarrow> (js_error + obj) \<times> world" where
  "addWord wordData w =
     (let (allWords, w1) = fetchAllWords w;
          (newId, w2) = generateId w1
      in case parseArrayField (get wordData ''banglaMeanings'') of
           Inl e \<Rightarrow> (Inl e, w2)
         | Inr bangla \<Rightarrow>
        (case parseArrayField (get wordData ''synonyms'') of
           Inl e \<Rightarrow> (Inl e, w2)
         | Inr syns \<Rightarrow>
        (case parseArrayField (get wordData ''antonyms'') of
           Inl e \<Rightarrow> (Inl e, w2)
         | Inr ants \<Rightarrow>
            (let newWord =
                   [''id'' \<mapsto> JStr newId,
                    ''date'' \<mapsto> js_or (get wordData ''date'') (JStr (getDateString (clock w2))),
                    ''wordNumber'' \<mapsto> JNum (getNextWordNumber allWords (get wordData ''date'')),
                    ''english'' \<mapsto> get wordData ''english'',
                    ''ipa'' \<mapsto> js_or (get wordData ''ipa'') (JStr []),
                    ''context'' \<mapsto> js_or (get wordData ''context'') (JStr []),
                    ''meaning'' \<mapsto> js_or (get wordData ''meaning'') (JStr []),
                    ''banglaMeanings'' \<mapsto> JArr bangla,
                    ''synonyms'' \<mapsto> JArr syns,
                    ''antonyms'' \<mapsto> JArr ants,
                    ''isLearned'' \<mapsto> JBool False,
                    ''createdAt'' \<mapsto> JStr (toISOString (clock w2))];
                 (saved, w3) = saveAllWords (allWords @ [newWord]) w2
             in (Inr newWord, w3)))))"

text \<open>\<open>Array.prototype.findIndex\<close>, with \<open>None\<close> for \<open>-1\<close>.\<close>

fun findIndex :: "('a \<Rightarrow> bool) \<Rightarrow> 'a list \<Rightarrow> nat option" where
  "findIndex P [] = None"
| "findIndex P (x # xs) =
     (if P x then Some 0 else map_option Suc (findIndex P xs))"

text \<open>One list field of the merged word: renormalized when the patch defines it, kept
  from the existing word otherwise.\<close>

definition merged_field :: "obj \<Rightarrow> obj \<Rightarrow> string \<Rightarrow> js_error + jsval" where
  "merged_field old updates k =
     (if get updates k \<noteq> JUndefined
      then (case parseArrayField (get updates k) of Inl e \<Rightarrow> Inl e | Inr xs \<Rightarrow> Inr (JArr xs))
      else Inr (get old k))"

definition updateWord :: "jsval \<Rightarrow> obj \<Rightarrow> world \<Rightarrow> (js_error + obj) \<times> world" where
  "updateWord wordId updates w =
     (let (allWords, w1) = fetchAllWords w
      in case findIndex (\<lambda>x. strict_eq (get x ''id'') wordId) allWords of
           None \<Rightarrow> (Inl not_found, w1)
         | Some index \<Rightarrow>
        (case merged_field (allWords ! index) updates ''banglaMeanings'' of
           Inl e \<Rightarrow> (Inl e, w1)
         | Inr bangla \<Rightarrow>
        (case merged_field (allWords ! index) updates ''synonyms'' of
           Inl e \<Rightarrow> (Inl e, w1)
         | Inr syns \<Rightarrow>
        (case merged_field (allWords ! index) updates ''antonyms'' of
           Inl e \<Rightarrow> (Inl e, w1)
         | Inr ants \<Rightarrow>
            (let updated =
                   ((allWords ! index) ++ updates)
                     (''banglaMeanings'' \<mapsto> bangla,
                      ''synonyms'' \<mapsto> syns,
                      ''antonyms'' \<mapsto> ants,
                      ''updatedAt'' \<mapsto> JStr (toISOString (clock w1)));
                 (saved, w2) = saveAllWords (allWords[index := updated]) w1
             in (Inr updated, w2))))))"

text \<open>The \<open>forEach\<close> loop of \<open>deleteWord\<close>, with its counter \<open>number\<close>.\<close>

fun renumber :: "jsval \<Rightarrow> int \<Rightarrow> obj list \<Rightarrow> obj list" where
  "renumber date number [] = []"
| "renumber date number (word # rest) =
     (if strict_eq (get word ''date'') date
      then word(''wordNumber'' \<mapsto> JNum number) # renumber date (number + 1) rest
      else word # renumber date number rest)"

definition deleteWord :: "jsval \<Rightarrow> world \<Rightarrow> (js_error + bool) \<times> world" where
  "deleteWord wordId w =
     (let (allWords, w1) = fetchAllWords w;
          filteredWords = filter (\<lambda>x. \<not> strict_eq (get x ''id'') wordId) allWords
      in if length filteredWords = length allWords then (Inl not_found, w1)
         else
           (let renumbered =
                  (case List.find (\<lambda>x. strict_eq (get x ''id'') wordId) allWords of
                     Some deletedWord \<Rightarrow> renumber (get deletedWord ''date'') 1 filteredWords
                   | None \<Rightarrow> filteredWords);
                (saved, w2) = saveAllWords renumbered w1
            in (Inr True, w2)))"

section \<open>Notions used to state the properties\<close>

text \<open>The event of sending one request, and the trace of one call of \<open>request\<close> that
  retried \<open>k\<close> times: \<open>k + 1\<close> sends with a one-second timer between consecutive sends.\<close>

definition sent :: "string \<Rightarrow> string \<Rightarrow> body \<Rightarrow> world \<Rightarrow> event" where
  "sent url meth bdy w =
     Fetch \<lparr>req_method = meth, req_url = url, req_masterKey = apiKey w, req_body = bdy\<rparr>"

fun retry_trace :: "event \<Rightarrow> nat \<Rightarrow> event list" where
  "retry_trace ev 0 = [ev]"
| "retry_trace ev (Suc k) = ev # Sleep 1000 # retry_trace ev k"

text \<open>An attempt that failed for a reason other than a cancellation.\<close>

definition retryable :: "fetch_outcome \<Rightarrow> bool" where
  "retryable out =
     (case attempt out of Inl e \<Rightarrow> err_name e \<noteq> ''AbortError'' | Inr r \<Rightarrow> False)"

definition failed :: "fetch_outcome \<Rightarrow> bool" where
  "failed out = (case attempt out of Inl e \<Rightarrow> True | Inr r \<Rightarrow> False)"

text \<open>The number of retries a call makes when it starts at attempt \<open>start\<close> of the network
  with \<open>n\<close> retries allowed.\<close>

fun retries_done :: "(nat \<Rightarrow> fetch_outcome) \<Rightarrow> nat \<Rightarrow> nat \<Rightarrow> nat" where
  "retries_done net start 0 = 0"
| "retries_done net start (Suc n) =
     (if retryable (net start) then Suc (retries_done net (Suc start) n) else 0)"

text \<open>
  The outcomes by their shape alone, as the retry policy is worded: a failure is every
  outcome but an ok response whose body parses; a cancellation is a rejection (of the call
  or of reading the body) whose error is named \<open>AbortError\<close> (the error raised for a
  response that is not ok is always named \<open>Error\<close>); a transient failure is a failure that
  is not a cancellation. \<open>sends_made net start\<close> is the number of requests the policy
  allows a call with 2 retries to send when its first attempt is attempt \<open>start\<close>.
\<close>

fun is_failure :: "fetch_outcome \<Rightarrow> bool" where
  "is_failure (FetchRejected e) = True"
| "is_failure (HttpNotOk msg status) = True"
| "is_failure (JsonRejected e) = True"
| "is_failure (JsonOk r) = False"

fun is_cancellation :: "fetch_outcome \<Rightarrow> bool" where
  "is_cancellation (FetchRejected e) = (err_name e = ''AbortError'')"
| "is_cancellation (HttpNotOk msg status) = False"
| "is_cancellation (JsonRejected e) = (err_name e = ''AbortError'')"
| "is_cancellation (JsonOk r) = False"

definition transient_failure :: "fetch_outcome \<Rightarrow> bool" where
  "transient_failure out = (is_failure out \<and> \<not> is_cancellation out)"

definition sends_made :: "(nat \<Rightarrow> fetch_outcome) \<Rightarrow> nat \<Rightarrow> nat" where
  "sends_made net start =
     (if transient_failure (net start)
      then (if transient_failure (net (start + 1)) then 3 else 2)
      else 1)"

text \<open>The words of a collection that carry a given date, and their numbers.\<close>

definition words_of_date :: "jsval \<Rightarrow> obj list \<Rightarrow> obj list" where
  "words_of_date d ws = filter (\<lambda>x. strict_eq (get x ''date'') d) ws"

definition numbers_of_date :: "jsval \<Rightarrow> obj list \<Rightarrow> jsval list" where
  "numbers_of_date d ws = map (\<lambda>x. get x ''wordNumber'') (words_of_date d ws)"

text \<open>The numbering invariant of one date: its word numbers are exactly 1..k, each once.\<close>

definition contiguous_numbering :: "jsval \<Rightarrow> obj list \<Rightarrow> bool" where
  "contiguous_numbering d ws =
     (distinct (numbers_of_date d ws) \<and>
      set (numbers_of_date d ws) = JNum ` {1 .. int (length (numbers_of_date d ws))})"

text \<open>The identifiers of a collection are pairwise different.\<close>

definition unique_ids :: "obj list \<Rightarrow> bool" where
  "unique_ids ws = distinct (map (\<lambda>x. get x ''id'') ws)"

section \<open>Sample data\<close>

definition word_a :: obj where
  "word_a = [''id'' \<mapsto> JStr ''a'', ''date'' \<mapsto> JStr ''2026-11-03'', ''wordNumber'' \<mapsto> JNum 1,
             ''english'' \<mapsto> JStr ''apple'', ''synonyms'' \<mapsto> JArr [JStr ''fruit''],
             ''createdAt'' \<mapsto> JStr ''2026-11-03T08:00:00.000Z'']"

definition word_b :: obj where
  "word_b = [''id'' \<mapsto> JStr ''b'', ''date'' \<mapsto> JStr ''2026-11-03'', ''wordNumber'' \<mapsto> JNum 2,
             ''english'' \<mapsto> JStr ''bread'']"

definition word_c :: obj where
  "word_c = [''id'' \<mapsto> JStr ''c'', ''date'' \<mapsto> JStr ''2026-11-02'', ''wordNumber'' \<mapsto> JNum 1,
             ''english'' \<mapsto> JStr ''cloud'']"

definition word_d :: obj where
  "word_d = [''id'' \<mapsto> JStr ''d'', ''date'' \<mapsto> JStr ''2026-11-03'', ''wordNumber'' \<mapsto> JNum 3,
             ''english'' \<mapsto> JStr ''door'']"

definition network_error :: js_error where
  "network_error = JsError ''TypeError'' ''Failed to fetch''"

definition net_aborted :: "nat \<Rightarrow> fetch_outcome" where
  "net_aborted k = FetchRejected (JsError ''AbortError'' ''The operation was aborted'')"

definition net_down :: "nat \<Rightarrow> fetch_outcome" where
  "net_down k = FetchRejected network_error"

definition net_serving :: "obj list \<Rightarrow> nat \<Rightarrow> fetch_outcome" where
  "net_serving ws k = JsonOk (Response (Some ws))"

definition net_flaky :: "obj list \<Rightarrow> nat \<Rightarrow> fetch_outcome" where
  "net_flaky ws k = (if k < 2 then FetchRejected network_error else JsonOk (Response (Some ws)))"

definition net_cancelled_retry :: "nat \<Rightarrow> fetch_outcome" where
  "net_cancelled_retry k =
     (if k = 0 then FetchRejected network_error
      else FetchRejected (JsError ''AbortError'' ''The operation was aborted''))"

definition net_server_error :: "nat \<Rightarrow> fetch_outcome" where
  "net_server_error k = HttpNotOk [] ''500''"


definition input_dated :: obj where
  "input_dated = [''date'' \<mapsto> JStr ''2026-11-03'', ''english'' \<mapsto> JStr ''egg'',
                  ''synonyms'' \<mapsto> JStr ''x, y'']"

definition input_undated :: obj where
  "input_undated = [''english'' \<mapsto> JStr ''egg'']"

definition patch_edit :: obj where
  "patch_edit = [''english'' \<mapsto> JStr ''apricot'', ''antonyms'' \<mapsto> JStr ''x,y'']"

definition patch_redate :: obj where
  "patch_redate = [''date'' \<mapsto> JStr ''1999-01-01'']"

text \<open>A state at 2026-11-03T12:00:00.000Z, with the given credentials, snapshot and network.\<close>

definition sample_world :: "string \<Rightarrow> string \<Rightarrow> obj list \<Rightarrow> (nat \<Rightarrow> fetch_outcome) \<Rightarrow> world" where
  "sample_world key bin ws net =
     \<lparr>apiKey = key, binId = bin, localWords = ws, streakData = None,
      clock = 1793707200000, random = (\<lambda>k. k), randomCalls = 0,
      network = net, fetchCalls = 0, trace = []\<rparr>"

text \<open>The same state with a given stored streak.\<close>

definition streak_world :: "streak option \<Rightarrow> world" where
  "streak_world sd = (sample_world [] [] [] net_down)\<lparr>streakData := sd\<rparr>"

section \<open>Properties of \<open>trim\<close> and \<open>split\<close>\<close>

lemma trim_all_ws: "\<forall>c\<in>set s. is_ws c \<Longrightarrow> trim s = []"
proof -
  assume "\<forall>c\<in>set s. is_ws c"
  then have "dropWhile is_ws s = []" by simp
  then show "trim s = []" by (simp only: trim_def rev.simps dropWhile.simps)
qed

lemma trim_Nil_all_ws:
  assumes "trim s = []"
  shows "\<forall>c\<in>set s. is_ws c"
proof -
  from assms have a: "\<forall>c\<in>set (dropWhile is_ws s). is_ws c"
    by (simp add: trim_def)
  have "dropWhile is_ws s = []"
  proof (rule ccontr)
    assume n: "dropWhile is_ws s \<noteq> []"
    then have "\<not> is_ws (hd (dropWhile is_ws s))" by (rule hd_dropWhile)
    moreover have "hd (dropWhile is_ws s) \<in> set (dropWhile is_ws s)"
      using n by (rule hd_in_set)
    ultimately show False using a by blast
  qed
  then show ?thesis by simp
qed

lemma dropWhile_id: "xs \<noteq> [] \<Longrightarrow> \<not> P (hd xs) \<Longrightarrow> dropWhile P xs = xs"
  by (cases xs) auto

lemma trim_fixed:
  "t \<noteq> [] \<Longrightarrow> \<not> is_ws (hd t) \<Longrightarrow> \<not> is_ws (last t) \<Longrightarrow> trim t = t"
  by (simp add: trim_def dropWhile_id hd_rev)

lemma hd_strip_right:
  assumes "xs \<noteq> []" "\<not> P (hd xs)"
  shows "hd (rev (dropWhile P (rev xs))) = hd xs"
  using assms
proof (induction xs rule: rev_induct)
  case Nil
  then show ?case by simp
next
  case (snoc x xs)
  then show ?case by (cases xs) auto
qed

lemma trim_hd_last:
  assumes "trim s \<noteq> []"
  shows "\<not> is_ws (hd (trim s)) \<and> \<not> is_ws (last (trim s))"
proof -
  let ?t = "dropWhile is_ws s"
  have t: "?t \<noteq> []"
  proof
    assume "?t = []"
    then have "trim s = []" by (simp only: trim_def rev.simps dropWhile.simps)
    with assms show False by simp
  qed
  then have h: "\<not> is_ws (hd ?t)" by (rule hd_dropWhile)
  from hd_strip_right[of "dropWhile is_ws s" is_ws, OF t h]
  have front: "hd (trim s) = hd ?t" by (simp only: trim_def)
  have d: "dropWhile is_ws (rev ?t) \<noteq> []"
    using assms unfolding trim_def by (simp only: rev_is_Nil_conv not_False_eq_True)
  then have "\<not> is_ws (hd (dropWhile is_ws (rev ?t)))" by (rule hd_dropWhile)
  moreover have "last (trim s) = hd (dropWhile is_ws (rev ?t))"
    unfolding trim_def by (rule last_rev)
  ultimately have "\<not> is_ws (last (trim s))" by simp
  with front h show ?thesis by simp
qed

lemma trim_idem: "trim (trim s) = trim s"
proof (cases "trim s = []")
  case True
  then show ?thesis by (simp add: trim_all_ws)
next
  case False
  with trim_hd_last[OF False] show ?thesis by (simp add: trim_fixed)
qed

lemma split_on_notin: "c \<notin> set s \<Longrightarrow> split_on c s = [s]"
  by (induction s) auto

lemma split_on_ne: "split_on c s \<noteq> []"
  by (induction s) (auto simp: Let_def)

lemma join_split: "join_on c (split_on c s) = s"
proof (induction s)
  case Nil
  then show ?case by simp
next
  case (Cons a s)
  obtain r rs where "split_on c s = r # rs"
    using split_on_ne[of c s] by (cases "split_on c s") auto
  with Cons show ?case by (cases rs) (auto simp: Let_def)
qed

lemma split_on_no_sep: "\<forall>t\<in>set (split_on c s). c \<notin> set t"
proof (induction s)
  case Nil
  then show ?case by simp
next
  case (Cons a s)
  obtain r rs where "split_on c s = r # rs"
    using split_on_ne[of c s] by (cases "split_on c s") auto
  with Cons show ?case by (auto simp: Let_def)
qed

lemma comma_not_ws: "\<not> is_ws CHR '',''"
  by (simp add: is_ws_def)

lemma blank_segments:
  assumes "trim s = []"
  shows "filter (\<lambda>t. t \<noteq> []) (map trim (split_on CHR '','' s)) = []"
proof -
  from assms have "\<forall>c\<in>set s. is_ws c" by (rule trim_Nil_all_ws)
  then have "CHR '','' \<notin> set s" using comma_not_ws by blast
  then have "split_on CHR '','' s = [s]" by (rule split_on_notin)
  with assms show ?thesis by simp
qed

section \<open>Properties of \<open>parseArrayField\<close>\<close>

lemma filter_items_strs:
  "filter_items (map JStr ss) = Inr (map JStr (filter (\<lambda>t. trim t \<noteq> []) ss))"
  by (induction ss) (auto simp: trim_def)

lemma parseArrayField_string:
  "parseArrayField (JStr s) =
     Inr (map JStr (filter (\<lambda>t. t \<noteq> []) (map trim (split_on CHR '','' s))))"
  by (simp add: blank_segments)

text \<open>
  C8 (as amended). A string input is mapped to the ordered list of the trimmed, non-empty
  segments between its commas; every element of the result is non-empty and is its own
  trimmed form; an empty or white-space-only string gives the empty list, and
  \<open>"a, b ,c"\<close> gives \<open>["a","b","c"]\<close>. A list of strings is mapped to the ordered list of
  its entries that are not empty or white-space-only, each entry kept as it is (it is
  not trimmed).
\<close>

theorem parseArrayField_normal_form:
  "parseArrayField (JStr s) =
     Inr (map JStr (filter (\<lambda>t. t \<noteq> []) (map trim (split_on CHR '','' s))))
   \<and> (\<forall>t \<in> set (filter (\<lambda>t. t \<noteq> []) (map trim (split_on CHR '','' s))).
         t \<noteq> [] \<and> trim t = t)
   \<and> ((\<forall>c\<in>set s. is_ws c) \<longrightarrow> parseArrayField (JStr s) = Inr [])
   \<and> parseArrayField (JStr ''a, b ,c'') = Inr [JStr ''a'', JStr ''b'', JStr ''c'']
   \<and> parseArrayField (JArr (map JStr ss)) =
       Inr (map JStr (filter (\<lambda>t. trim t \<noteq> []) ss))"
proof -
  have "\<forall>t \<in> set (filter (\<lambda>t. t \<noteq> []) (map trim (split_on CHR '','' s))).
          t \<noteq> [] \<and> trim t = t"
    by (auto simp: trim_idem)
  moreover have "(\<forall>c\<in>set s. is_ws c) \<longrightarrow> parseArrayField (JStr s) = Inr []"
    by (simp add: trim_all_ws)
  moreover have "parseArrayField (JStr ''a, b ,c'') = Inr [JStr ''a'', JStr ''b'', JStr ''c'']"
    by (simp add: trim_def is_ws_def)
  moreover have "parseArrayField (JArr (map JStr ss)) =
       Inr (map JStr (filter (\<lambda>t. trim t \<noteq> []) ss))"
    by (simp add: filter_items_strs)
  moreover note parseArrayField_string [of s]
  ultimately show ?thesis
    by (intro conjI)
qed

theorem parseArrayField_normal_form_witness:
  "parseArrayField (JStr ''x , ,y'') = Inr [JStr ''x'', JStr ''y'']
   \<and> trim ''x'' = ''x'' \<and> trim ''y'' = ''y''
   \<and> is_ws CHR '' '' \<and> parseArrayField (JStr ''  '') = Inr []
   \<and> parseArrayField (JArr [JStr ''p'', JStr '' '', JStr ''q'']) = Inr [JStr ''p'', JStr ''q'']"
proof -
  have seg: "filter (\<lambda>t. t \<noteq> []) (map trim (split_on CHR '','' ''x , ,y'')) = [''x'', ''y'']"
    by (simp add: trim_def is_ws_def)
  have blank: "\<forall>c\<in>set ''  ''. is_ws c"
    by (simp add: is_ws_def)
  have keep: "filter (\<lambda>t. trim t \<noteq> []) [''p'', '' '', ''q''] = [''p'', ''q'']"
    by (simp add: trim_def is_ws_def)
  note A = parseArrayField_normal_form [of "''x , ,y''" "[''p'', '' '', ''q'']", unfolded seg keep]
  note B = parseArrayField_normal_form [of "''  ''" "[]"]
  from A have "parseArrayField (JStr ''x , ,y'') = Inr (map JStr [''x'', ''y''])"
    by (rule conjunct1)
  moreover from A have "\<forall>t \<in> set [''x'', ''y'']. t \<noteq> [] \<and> trim t = t"
    by blast
  moreover from B blank have "parseArrayField (JStr ''  '') = Inr []"
    by blast
  moreover from A have "parseArrayField (JArr (map JStr [''p'', '' '', ''q''])) =
      Inr (map JStr [''p'', ''q''])"
    by blast
  moreover have "is_ws CHR '' ''"
    using blank by simp
  ultimately show ?thesis
    by (simp only: list.map simp_thms list.set ball_simps insert_iff)
qed

text \<open>
  C8 as stated fails for list input: an entry with surrounding white space is kept
  untrimmed, so the result is not a list of trimmed strings.
\<close>

theorem parseArrayField_list_entry_untrimmed:
  "parseArrayField (JArr [JStr '' a'']) = Inr [JStr '' a''] \<and> trim '' a'' \<noteq> '' a''"
  by (simp add: trim_def is_ws_def)

section \<open>Properties of \<open>request\<close>, \<open>fetchAllWords\<close> and \<open>saveAllWords\<close>\<close>

declare request.simps [simp del]

lemma request_0:
  "request url meth bdy 0 w =
     (attempt (network w (fetchCalls w)),
      w\<lparr>fetchCalls := fetchCalls w + 1, trace := trace w @ [sent url meth bdy w]\<rparr>)"
  by (simp add: request.simps[of url meth bdy 0 w] Let_def sent_def split: sum.splits)

lemma request_Suc:
  "request url meth bdy (Suc n) w =
     (if retryable (network w (fetchCalls w))
      then request url meth bdy n
             (w\<lparr>fetchCalls := fetchCalls w + 1,
                trace := trace w @ [sent url meth bdy w, Sleep 1000]\<rparr>)
      else (attempt (network w (fetchCalls w)),
            w\<lparr>fetchCalls := fetchCalls w + 1, trace := trace w @ [sent url meth bdy w]\<rparr>))"
  by (simp add: request.simps[of url meth bdy "Suc n" w] Let_def sent_def retryable_def
           split: sum.splits)

lemma retries_done_le: "retries_done net start n \<le> n"
  by (induction n arbitrary: start) auto

lemma request_run:
  "request url meth bdy retries w =
     (attempt (network w (fetchCalls w + retries_done (network w) (fetchCalls w) retries)),
      w\<lparr>fetchCalls := fetchCalls w + retries_done (network w) (fetchCalls w) retries + 1,
        trace := trace w @
          retry_trace (sent url meth bdy w) (retries_done (network w) (fetchCalls w) retries)\<rparr>)"
proof (induction retries arbitrary: w)
  case 0
  show ?case by (simp add: request_0)
next
  case (Suc n)
  show ?case
  proof (cases "retryable (network w (fetchCalls w))")
    case True
    then show ?thesis
      by (simp add: request_Suc Suc.IH sent_def)
  next
    case False
    then show ?thesis by (simp add: request_Suc)
  qed
qed

lemma request_frame:
  assumes "request url meth bdy retries w = (res, w')"
  shows "apiKey w' = apiKey w \<and> binId w' = binId w \<and> localWords w' = localWords w
       \<and> streakData w' = streakData w \<and> clock w' = clock w \<and> random w' = random w
       \<and> randomCalls w' = randomCalls w \<and> network w' = network w"
  using assms by (auto simp: request_run)

lemma fetchAllWords_offline:
  "binId w = [] \<Longrightarrow> fetchAllWords w = (localWords w, w)"
  by (simp add: fetchAllWords_def getLocalWords_def)

lemma saveAllWords_offline:
  "binId w = [] \<Longrightarrow> saveAllWords c w = (True, w\<lparr>localWords := c\<rparr>)"
  by (simp add: saveAllWords_def saveLocalWords_def)

lemma fetchAllWords_frame:
  assumes "fetchAllWords w = (ws, w1)"
  shows "apiKey w1 = apiKey w \<and> binId w1 = binId w \<and> streakData w1 = streakData w
       \<and> clock w1 = clock w \<and> random w1 = random w \<and> randomCalls w1 = randomCalls w
       \<and> network w1 = network w \<and> localWords w1 = ws"
  using assms
  by (auto simp: fetchAllWords_def getLocalWords_def saveLocalWords_def request_run Let_def
           split: if_splits sum.splits prod.splits)

lemma saveAllWords_frame:
  assumes "saveAllWords c w = (ok, w1)"
  shows "apiKey w1 = apiKey w \<and> binId w1 = binId w \<and> streakData w1 = streakData w
       \<and> clock w1 = clock w \<and> random w1 = random w \<and> randomCalls w1 = randomCalls w
       \<and> network w1 = network w \<and> localWords w1 = c"
  using assms
  by (auto simp: saveAllWords_def saveLocalWords_def request_run Let_def
           split: if_splits sum.splits prod.splits)

lemma fetchAllWords_online:
  assumes "binId w \<noteq> []"
  shows "fetchAllWords w =
     (case request (BASE_URL @ ''/b/'' @ binId w @ ''/latest'') ''GET'' NoBody 2 w of
        (Inr result, w1) \<Rightarrow>
          ((case record_words result of Some ws \<Rightarrow> ws | None \<Rightarrow> []),
           w1\<lparr>localWords := (case record_words result of Some ws \<Rightarrow> ws | None \<Rightarrow> [])\<rparr>)
      | (Inl e, w1) \<Rightarrow> (localWords w, w1))"
  using assms
  by (auto simp: fetchAllWords_def getLocalWords_def saveLocalWords_def Let_def request_run
           split: sum.splits prod.splits)

lemma retries_done_2:
  "retries_done net s 2 =
     (if retryable (net s) then (if retryable (net (Suc s)) then 2 else 1) else 0)"
  by (simp add: numeral_2_eq_2)

text \<open>
  C6 (as amended). Whenever the document identifier is absent, whatever the access key,
  \<open>fetchAllWords\<close> returns exactly the snapshot and leaves the state as it was (no request
  is sent), and \<open>saveAllWords c\<close> writes \<open>c\<close> to the snapshot, sends no request and reports
  success.
\<close>

theorem credentials_absent_local_only:
  assumes "binId w = []"
  shows "fetchAllWords w = (localWords w, w)
       \<and> saveAllWords c w = (True, w\<lparr>localWords := c\<rparr>)
       \<and> trace (snd (fetchAllWords w)) = trace w
       \<and> trace (snd (saveAllWords c w)) = trace w"
  using assms by (simp add: fetchAllWords_offline saveAllWords_offline)

theorem credentials_absent_local_only_witness:
  "binId (sample_world ''key'' [] [word_a] net_down) = []
   \<and> fst (fetchAllWords (sample_world ''key'' [] [word_a] net_down)) = [word_a]
   \<and> trace (snd (fetchAllWords (sample_world ''key'' [] [word_a] net_down))) = []
   \<and> fst (saveAllWords [word_b] (sample_world ''key'' [] [word_a] net_down)) = True
   \<and> localWords (snd (saveAllWords [word_b] (sample_world ''key'' [] [word_a] net_down))) = [word_b]
   \<and> trace (snd (saveAllWords [word_b] (sample_world ''key'' [] [word_a] net_down))) = []"
proof -
  have b: "binId (sample_world ''key'' [] [word_a] net_down) = []"
    by (simp add: sample_world_def)
  from credentials_absent_local_only [OF b, of "[word_b]"] b
  show ?thesis by (simp add: sample_world_def)
qed

text \<open>
  C6 as stated fails when only the access key is absent: the guard of both operations tests
  the document identifier alone, so the request is sent (with an empty key) and the remote
  result is returned instead of the snapshot.
\<close>

theorem access_key_absent_still_remote:
  "apiKey (sample_world [] ''bin1'' [] (net_serving [word_a])) = []
   \<and> fst (fetchAllWords (sample_world [] ''bin1'' [] (net_serving [word_a]))) = [word_a]
   \<and> localWords (sample_world [] ''bin1'' [] (net_serving [word_a])) = []
   \<and> fst (fetchAllWords (sample_world [] ''bin1'' [] (net_serving [word_a]))) \<noteq>
       localWords (sample_world [] ''bin1'' [] (net_serving [word_a]))
   \<and> trace (snd (fetchAllWords (sample_world [] ''bin1'' [] (net_serving [word_a])))) =
       [Fetch \<lparr>req_method = ''GET'', req_url = ''https://api.jsonbin.io/v3/b/bin1/latest'',
               req_masterKey = [], req_body = NoBody\<rparr>]"
  by (simp add: fetchAllWords_online request_run retries_done_2 retryable_def
        sample_world_def net_serving_def sent_def BASE_URL_def)

lemma retryable_transient: "retryable out = transient_failure out"
  by (cases out) (auto simp: retryable_def transient_failure_def)

lemma attempt_failure: "is_failure out \<Longrightarrow> \<exists>e. attempt out = Inl e"
  by (cases out) auto

lemma retries_done_sends:
  "retries_done net start 2 + 1 = sends_made net start"
  by (simp add: retries_done_2 retryable_transient sends_made_def)

lemma sends_made_bounds: "1 \<le> sends_made net start \<and> sends_made net start \<le> 3"
  by (simp add: sends_made_def)

lemma request_2:
  "request url meth bdy 2 w =
     (attempt (network w (fetchCalls w + sends_made (network w) (fetchCalls w) - 1)),
      w\<lparr>fetchCalls := fetchCalls w + sends_made (network w) (fetchCalls w),
        trace := trace w @
          retry_trace (sent url meth bdy w) (sends_made (network w) (fetchCalls w) - 1)\<rparr>)"
  unfolding retries_done_sends[symmetric] by (simp add: request_run)

text \<open>
  C7. A call of \<open>request\<close> with the default of 2 retries sends one request when its first
  attempt succeeds or is cancelled, two when the first attempt fails transiently and the
  second succeeds or is cancelled, and three when the first two attempts fail transiently:
  never more than three, a timer of 1000 ms between consecutive sends and nothing else, no
  retry after a cancellation at any attempt. The call returns the body of its last attempt
  when that attempt succeeded and raises the error of its last attempt otherwise (a
  rejected call, a response that is not ok, an unreadable body). Consequently a
  \<open>fetchAllWords\<close> whose first two attempts fail transiently and whose third succeeds
  returns the remote words after three sends (and caches them), and one whose three
  attempts all fail returns the snapshot and leaves it as it was.
\<close>

theorem request_retry_policy:
  "1 \<le> sends_made (network w) (fetchCalls w)
   \<and> sends_made (network w) (fetchCalls w) \<le> 3
   \<and> (\<not> transient_failure (network w (fetchCalls w)) \<longrightarrow>
        sends_made (network w) (fetchCalls w) = 1)
   \<and> (transient_failure (network w (fetchCalls w))
        \<and> \<not> transient_failure (network w (fetchCalls w + 1)) \<longrightarrow>
        sends_made (network w) (fetchCalls w) = 2)
   \<and> (transient_failure (network w (fetchCalls w))
        \<and> transient_failure (network w (fetchCalls w + 1)) \<longrightarrow>
        sends_made (network w) (fetchCalls w) = 3)
   \<and> snd (request url meth bdy 2 w) =
        w\<lparr>fetchCalls := fetchCalls w + sends_made (network w) (fetchCalls w),
          trace := trace w @
            retry_trace (sent url meth bdy w) (sends_made (network w) (fetchCalls w) - 1)\<rparr>
   \<and> (\<forall>r. network w (fetchCalls w + sends_made (network w) (fetchCalls w) - 1) = JsonOk r \<longrightarrow>
          fst (request url meth bdy 2 w) = Inr r)
   \<and> (\<forall>e. network w (fetchCalls w + sends_made (network w) (fetchCalls w) - 1) = FetchRejected e
            \<or> network w (fetchCalls w + sends_made (network w) (fetchCalls w) - 1) = JsonRejected e
          \<longrightarrow> fst (request url meth bdy 2 w) = Inl e)
   \<and> (\<forall>msg status.
          network w (fetchCalls w + sends_made (network w) (fetchCalls w) - 1) = HttpNotOk msg status
          \<longrightarrow> fst (request url meth bdy 2 w) =
                Inl (JsError ''Error'' (if msg \<noteq> [] then msg else ''HTTP error '' @ status)))
   \<and> (binId w \<noteq> [] \<and> transient_failure (network w (fetchCalls w))
        \<and> transient_failure (network w (fetchCalls w + 1))
        \<and> network w (fetchCalls w + 2) = JsonOk (Response (Some ws)) \<longrightarrow>
        fst (fetchAllWords w) = ws
        \<and> localWords (snd (fetchAllWords w)) = ws
        \<and> fetchCalls (snd (fetchAllWords w)) = fetchCalls w + 3)
   \<and> (binId w \<noteq> [] \<and> is_failure (network w (fetchCalls w))
        \<and> is_failure (network w (fetchCalls w + 1))
        \<and> is_failure (network w (fetchCalls w + 2)) \<longrightarrow>
        fst (fetchAllWords w) = localWords w
        \<and> localWords (snd (fetchAllWords w)) = localWords w
        \<and> fetchCalls (snd (fetchAllWords w)) =
            fetchCalls w + sends_made (network w) (fetchCalls w))"
proof -
  let ?s = "fetchCalls w"
  let ?n = "sends_made (network w) ?s"
  let ?last = "network w (?s + ?n - 1)"
  have b: "1 \<le> ?n" "?n \<le> 3" using sends_made_bounds[of "network w" ?s] by simp_all
  have n1: "\<not> transient_failure (network w ?s) \<longrightarrow> ?n = 1"
    by (simp add: sends_made_def)
  have n2: "transient_failure (network w ?s) \<and> \<not> transient_failure (network w (?s + 1)) \<longrightarrow> ?n = 2"
    by (simp add: sends_made_def)
  have n3: "transient_failure (network w ?s) \<and> transient_failure (network w (?s + 1)) \<longrightarrow> ?n = 3"
    by (simp add: sends_made_def)
  have st: "snd (request url meth bdy 2 w) =
        w\<lparr>fetchCalls := ?s + ?n, trace := trace w @ retry_trace (sent url meth bdy w) (?n - 1)\<rparr>"
    by (simp add: request_2)
  have res: "fst (request url meth bdy 2 w) = attempt ?last"
    by (simp add: request_2)
  have ok: "\<forall>r. ?last = JsonOk r \<longrightarrow> fst (request url meth bdy 2 w) = Inr r"
    unfolding res by simp
  have rej: "\<forall>e. ?last = FetchRejected e \<or> ?last = JsonRejected e
          \<longrightarrow> fst (request url meth bdy 2 w) = Inl e"
    unfolding res by auto
  have http: "\<forall>msg status. ?last = HttpNotOk msg status
          \<longrightarrow> fst (request url meth bdy 2 w) =
                Inl (JsError ''Error'' (if msg \<noteq> [] then msg else ''HTTP error '' @ status))"
    unfolding res by simp
  have f3: "binId w \<noteq> [] \<and> transient_failure (network w ?s)
        \<and> transient_failure (network w (?s + 1))
        \<and> network w (?s + 2) = JsonOk (Response (Some ws)) \<longrightarrow>
        fst (fetchAllWords w) = ws
        \<and> localWords (snd (fetchAllWords w)) = ws
        \<and> fetchCalls (snd (fetchAllWords w)) = ?s + 3"
    by (simp add: fetchAllWords_online request_2 sends_made_def)
  have f4: "binId w \<noteq> [] \<and> is_failure (network w ?s)
        \<and> is_failure (network w (?s + 1))
        \<and> is_failure (network w (?s + 2)) \<longrightarrow>
        fst (fetchAllWords w) = localWords w
        \<and> localWords (snd (fetchAllWords w)) = localWords w
        \<and> fetchCalls (snd (fetchAllWords w)) = ?s + ?n"
  proof
    assume a: "binId w \<noteq> [] \<and> is_failure (network w ?s)
        \<and> is_failure (network w (?s + 1)) \<and> is_failure (network w (?s + 2))"
    have "?n = 1 \<or> ?n = 2 \<or> ?n = 3" using b by auto
    with a have "is_failure ?last" by auto
    then obtain e where e: "attempt ?last = Inl e" using attempt_failure by blast
    with a show "fst (fetchAllWords w) = localWords w
        \<and> localWords (snd (fetchAllWords w)) = localWords w
        \<and> fetchCalls (snd (fetchAllWords w)) = ?s + ?n"
      by (simp add: fetchAllWords_online request_2)
  qed
  from b n1 n2 n3 st ok rej http f3 f4 show ?thesis by (intro conjI)
qed

theorem request_retry_policy_witness:
  "transient_failure (net_flaky [word_a] 0) \<and> transient_failure (net_flaky [word_a] 1)
   \<and> fst (fetchAllWords (sample_world ''key'' ''bin1'' [word_c] (net_flaky [word_a]))) = [word_a]
   \<and> fetchCalls (snd (fetchAllWords (sample_world ''key'' ''bin1'' [word_c] (net_flaky [word_a])))) = 3
   \<and> is_failure (net_server_error 0) \<and> is_failure (net_server_error 1)
   \<and> is_failure (net_server_error 2)
   \<and> fst (fetchAllWords (sample_world ''key'' ''bin1'' [word_c] net_server_error)) = [word_c]
   \<and> fetchCalls (snd (fetchAllWords (sample_world ''key'' ''bin1'' [word_c] net_server_error))) = 3
   \<and> fst (request ''u'' ''GET'' NoBody 2 (sample_world ''key'' ''bin1'' [word_c] net_server_error)) =
        Inl (JsError ''Error'' ''HTTP error 500'')
   \<and> is_cancellation (net_aborted 0)
   \<and> snd (request ''u'' ''GET'' NoBody 2 (sample_world ''key'' ''bin1'' [word_c] net_aborted)) =
        (sample_world ''key'' ''bin1'' [word_c] net_aborted)
          \<lparr>fetchCalls := 1,
            trace := [sent ''u'' ''GET'' NoBody (sample_world ''key'' ''bin1'' [word_c] net_aborted)]\<rparr>
   \<and> transient_failure (net_cancelled_retry 0) \<and> is_cancellation (net_cancelled_retry 1)
   \<and> snd (request ''u'' ''GET'' NoBody 2 (sample_world ''key'' ''bin1'' [word_c] net_cancelled_retry)) =
        (sample_world ''key'' ''bin1'' [word_c] net_cancelled_retry)
          \<lparr>fetchCalls := 2,
            trace := [sent ''u'' ''GET'' NoBody (sample_world ''key'' ''bin1'' [word_c] net_cancelled_retry),
                      Sleep 1000,
                      sent ''u'' ''GET'' NoBody (sample_world ''key'' ''bin1'' [word_c] net_cancelled_retry)]\<rparr>
   \<and> fst (request ''u'' ''GET'' NoBody 2 (sample_world ''key'' ''bin1'' [word_c] net_cancelled_retry)) =
        Inl (JsError ''AbortError'' ''The operation was aborted'')"
proof -
  let ?f = "sample_world ''key'' ''bin1'' [word_c] (net_flaky [word_a])"
  let ?h = "sample_world ''key'' ''bin1'' [word_c] net_server_error"
  let ?a = "sample_world ''key'' ''bin1'' [word_c] net_aborted"
  let ?r = "sample_world ''key'' ''bin1'' [word_c] net_cancelled_retry"
  let ?e = "JsError ''AbortError'' ''The operation was aborted''"
  have sw: "fetchCalls (sample_world k b ws net) = 0" "network (sample_world k b ws net) = net"
    "binId (sample_world k b ws net) = b" "localWords (sample_world k b ws net) = ws"
    "trace (sample_world k b ws net) = []" for k b ws net
    by (simp_all add: sample_world_def)
  have tf: "transient_failure (net_flaky [word_a] 0)" "transient_failure (net_flaky [word_a] 1)"
    "net_flaky [word_a] 2 = JsonOk (Response (Some [word_a]))"
    by (simp_all add: transient_failure_def net_flaky_def network_error_def)
  have hf: "is_failure (net_server_error 0)" "is_failure (net_server_error 1)"
    "is_failure (net_server_error 2)" "transient_failure (net_server_error 0)"
    "transient_failure (net_server_error 1)"
    "net_server_error 2 = HttpNotOk [] ''500''"
    by (simp_all add: net_server_error_def transient_failure_def)
  have ca: "is_cancellation (net_aborted 0)" "\<not> transient_failure (net_aborted 0)"
    "net_aborted 0 = FetchRejected ?e"
    by (simp_all add: net_aborted_def transient_failure_def)
  have cr: "transient_failure (net_cancelled_retry 0)" "is_cancellation (net_cancelled_retry 1)"
    "\<not> transient_failure (net_cancelled_retry 1)" "net_cancelled_retry 1 = FetchRejected ?e"
    by (simp_all add: net_cancelled_retry_def transient_failure_def network_error_def)
  note F = request_retry_policy [of ?f "''u''" "''GET''" NoBody "[word_a]"]
  note H = request_retry_policy [of ?h "''u''" "''GET''" NoBody "[]"]
  note A = request_retry_policy [of ?a "''u''" "''GET''" NoBody "[]"]
  note R = request_retry_policy [of ?r "''u''" "''GET''" NoBody "[]"]
  have pf: "binId ?f \<noteq> [] \<and> transient_failure (network ?f (fetchCalls ?f))
        \<and> transient_failure (network ?f (fetchCalls ?f + 1))
        \<and> network ?f (fetchCalls ?f + 2) = JsonOk (Response (Some [word_a]))"
    by (simp add: sw transient_failure_def net_flaky_def net_server_error_def net_aborted_def net_cancelled_retry_def network_error_def)
  from F pf have "fst (fetchAllWords ?f) = [word_a]
        \<and> localWords (snd (fetchAllWords ?f)) = [word_a]
        \<and> fetchCalls (snd (fetchAllWords ?f)) = fetchCalls ?f + 3"
    by blast
  then have c1: "fst (fetchAllWords ?f) = [word_a]" "fetchCalls (snd (fetchAllWords ?f)) = 3"
    by (simp_all add: sw)
  have ph: "binId ?h \<noteq> [] \<and> is_failure (network ?h (fetchCalls ?h))
        \<and> is_failure (network ?h (fetchCalls ?h + 1))
        \<and> is_failure (network ?h (fetchCalls ?h + 2))"
    by (simp add: sw transient_failure_def net_flaky_def net_server_error_def net_aborted_def net_cancelled_retry_def network_error_def)
  have th: "transient_failure (network ?h (fetchCalls ?h))
        \<and> transient_failure (network ?h (fetchCalls ?h + 1))"
    by (simp add: sw transient_failure_def net_flaky_def net_server_error_def net_aborted_def net_cancelled_retry_def network_error_def)
  from H th have nh: "sends_made (network ?h) (fetchCalls ?h) = 3" by blast
  from H ph have "fst (fetchAllWords ?h) = localWords ?h
        \<and> localWords (snd (fetchAllWords ?h)) = localWords ?h
        \<and> fetchCalls (snd (fetchAllWords ?h)) =
            fetchCalls ?h + sends_made (network ?h) (fetchCalls ?h)"
    by blast
  with nh have c2': "fst (fetchAllWords ?h) = [word_c]" "fetchCalls (snd (fetchAllWords ?h)) = 3"
    by (simp_all add: sw)
  have lh: "network ?h (fetchCalls ?h + sends_made (network ?h) (fetchCalls ?h) - 1) =
      HttpNotOk [] ''500''"
    by (simp add: sw net_server_error_def)
  from H lh have "fst (request ''u'' ''GET'' NoBody 2 ?h) =
        Inl (JsError ''Error'' (if ([]::string) \<noteq> [] then [] else ''HTTP error '' @ ''500''))"
    by blast
  then have c3: "fst (request ''u'' ''GET'' NoBody 2 ?h) =
        Inl (JsError ''Error'' ''HTTP error 500'')" by simp
  have ta: "\<not> transient_failure (network ?a (fetchCalls ?a))"
    by (simp add: sw transient_failure_def net_flaky_def net_server_error_def net_aborted_def net_cancelled_retry_def network_error_def)
  from A ta have na: "sends_made (network ?a) (fetchCalls ?a) = 1" by blast
  from A have "snd (request ''u'' ''GET'' NoBody 2 ?a) =
        ?a\<lparr>fetchCalls := fetchCalls ?a + sends_made (network ?a) (fetchCalls ?a),
          trace := trace ?a @
            retry_trace (sent ''u'' ''GET'' NoBody ?a) (sends_made (network ?a) (fetchCalls ?a) - 1)\<rparr>"
    by blast
  then have c4: "snd (request ''u'' ''GET'' NoBody 2 ?a) =
        ?a\<lparr>fetchCalls := 1, trace := [sent ''u'' ''GET'' NoBody ?a]\<rparr>"
    unfolding na by (simp add: sw)
  have tr: "transient_failure (network ?r (fetchCalls ?r))
        \<and> \<not> transient_failure (network ?r (fetchCalls ?r + 1))"
    by (simp add: sw transient_failure_def net_flaky_def net_server_error_def net_aborted_def net_cancelled_retry_def network_error_def)
  from R tr have nr: "sends_made (network ?r) (fetchCalls ?r) = 2" by blast
  from R have "snd (request ''u'' ''GET'' NoBody 2 ?r) =
        ?r\<lparr>fetchCalls := fetchCalls ?r + sends_made (network ?r) (fetchCalls ?r),
          trace := trace ?r @
            retry_trace (sent ''u'' ''GET'' NoBody ?r) (sends_made (network ?r) (fetchCalls ?r) - 1)\<rparr>"
    by blast
  then have c5: "snd (request ''u'' ''GET'' NoBody 2 ?r) =
        ?r\<lparr>fetchCalls := 2,
           trace := [sent ''u'' ''GET'' NoBody ?r, Sleep 1000, sent ''u'' ''GET'' NoBody ?r]\<rparr>"
    unfolding nr by (simp add: sw)
  have lr: "network ?r (fetchCalls ?r + sends_made (network ?r) (fetchCalls ?r) - 1) =
      FetchRejected ?e"
    unfolding nr by (simp add: sw transient_failure_def net_flaky_def net_server_error_def net_aborted_def net_cancelled_retry_def network_error_def)
  from R lr have c6: "fst (request ''u'' ''GET'' NoBody 2 ?r) = Inl ?e" by blast
  from tf(1,2) c1 hf(1,2,3) c2' c3 ca(1) c4 cr(1,2) c5 c6 show ?thesis
    by (intro conjI)
qed

section \<open>Properties of \<open>deleteWord\<close>\<close>

lemma length_renumber: "length (renumber d n xs) = length xs"
  by (induction xs arbitrary: n) auto

lemma get_upd_other: "k \<noteq> k' \<Longrightarrow> get (x(k' \<mapsto> v)) k = get x k"
  by (simp add: get_def)

lemma get_upd_same: "get (x(k \<mapsto> v)) k = v"
  by (simp add: get_def)

lemma renumber_dates:
  "map (\<lambda>x. get x ''date'') (renumber d n xs) = map (\<lambda>x. get x ''date'') xs"
  by (induction xs arbitrary: n) (auto simp: get_upd_other)

lemma renumber_nth:
  "i < length xs \<Longrightarrow>
     renumber d n xs ! i =
       (if strict_eq (get (xs ! i) ''date'') d
        then (xs ! i)(''wordNumber'' \<mapsto> JNum (n + int (length (words_of_date d (take i xs)))))
        else xs ! i)"
proof (induction xs arbitrary: n i)
  case Nil
  then show ?case by simp
next
  case (Cons x xs)
  show ?case
  proof (cases i)
    case 0
    then show ?thesis by (simp add: words_of_date_def)
  next
    case (Suc j)
    with Cons.prems have j: "j < length xs" by simp
    show ?thesis
      using Cons.IH[OF j] Suc by (auto simp: words_of_date_def)
  qed
qed

lemma numbers_renumber:
  "numbers_of_date d (renumber d n xs) =
     map JNum [n .. n + int (length (words_of_date d xs)) - 1]"
proof (induction xs arbitrary: n)
  case Nil
  then show ?case by (simp add: numbers_of_date_def words_of_date_def)
next
  case (Cons x xs)
  show ?case
  proof (cases "strict_eq (get x ''date'') d")
    case True
    have "[n .. n + int (length (words_of_date d xs))] =
          n # [n + 1 .. n + int (length (words_of_date d xs))]"
      by (rule upto_rec1) simp
    with True Cons.IH[of "n + 1"] show ?thesis
      by (simp add: numbers_of_date_def words_of_date_def get_upd_other get_upd_same add.commute)
  next
    case False
    with Cons.IH[of n] show ?thesis
      by (simp add: numbers_of_date_def words_of_date_def)
  qed
qed

lemma upto_contiguous:
  "distinct (map JNum [1 .. int k]) \<and> set (map JNum [1 .. int k]) = JNum ` {1 .. int k}
   \<and> length (map JNum [1 .. int k]) = k"
  by (simp add: distinct_map inj_on_def)

lemma contiguous_renumber: "contiguous_numbering d (renumber d 1 xs)"
proof -
  have "numbers_of_date d (renumber d 1 xs) = map JNum [1 .. int (length (words_of_date d xs))]"
    using numbers_renumber[of d 1 xs] by simp
  then show ?thesis
    unfolding contiguous_numbering_def using upto_contiguous[of "length (words_of_date d xs)"]
    by simp
qed

lemma filter_none: "(\<forall>x\<in>set xs. \<not> P x) \<Longrightarrow> filter (\<lambda>x. \<not> P x) xs = xs"
  by (induction xs) auto

lemma find_split:
  "(\<forall>x\<in>set pre. \<not> P x) \<Longrightarrow> P t \<Longrightarrow> List.find P (pre @ t # post) = Some t"
  by (induction pre) auto

lemma deleteWord_unfold:
  assumes "fetchAllWords w = (allWords, w1)"
    and "filter (\<lambda>x. \<not> strict_eq (get x ''id'') wordId) allWords = rest"
    and "length rest \<noteq> length allWords"
    and "List.find (\<lambda>x. strict_eq (get x ''id'') wordId) allWords = Some t"
  shows "deleteWord wordId w =
     (Inr True, snd (saveAllWords (renumber (get t ''date'') 1 rest) w1))"
  unfolding deleteWord_def using assms by (simp add: Let_def split: prod.splits)

lemma deleteWord_present:
  assumes fetch: "fetchAllWords w = (pre @ target # post, w1)"
    and pre: "\<forall>x\<in>set pre. \<not> strict_eq (get x ''id'') wordId"
    and post: "\<forall>x\<in>set post. \<not> strict_eq (get x ''id'') wordId"
    and tgt: "strict_eq (get target ''id'') wordId"
  shows "deleteWord wordId w =
     (Inr True, snd (saveAllWords (renumber (get target ''date'') 1 (pre @ post)) w1))"
proof -
  have f: "filter (\<lambda>x. \<not> strict_eq (get x ''id'') wordId) (pre @ target # post) = pre @ post"
    using pre post tgt by (simp add: filter_none)
  have g: "List.find (\<lambda>x. strict_eq (get x ''id'') wordId) (pre @ target # post) = Some target"
    using pre tgt by (simp add: find_split)
  have l: "length (pre @ post) \<noteq> length (pre @ target # post)" by simp
  from deleteWord_unfold[OF fetch f l g] show ?thesis .
qed

lemma deleteWord_absent:
  assumes fetch: "fetchAllWords w = (allWords, w1)"
    and none: "\<forall>x\<in>set allWords. \<not> strict_eq (get x ''id'') wordId"
  shows "deleteWord wordId w = (Inl not_found, w1)"
  unfolding deleteWord_def fetch using none by (simp add: filter_none Let_def)

lemma sample_fields:
  "get word_a ''id'' = JStr ''a''" "get word_b ''id'' = JStr ''b''"
  "get word_c ''id'' = JStr ''c''" "get word_d ''id'' = JStr ''d''"
  "get word_a ''date'' = JStr ''2026-11-03''" "get word_b ''date'' = JStr ''2026-11-03''"
  "get word_c ''date'' = JStr ''2026-11-02''" "get word_d ''date'' = JStr ''2026-11-03''"
  "get word_a ''wordNumber'' = JNum 1" "get word_b ''wordNumber'' = JNum 2"
  "get word_c ''wordNumber'' = JNum 1" "get word_d ''wordNumber'' = JNum 3"
  by (simp_all add: get_def word_a_def word_b_def word_c_def word_d_def)


text \<open>
  C1. Let the fetched collection be \<open>pre @ target # post\<close> with pairwise different
  identifiers, and let \<open>wordId\<close> be the identifier of \<open>target\<close>. Then \<open>deleteWord\<close>
  succeeds and saves the collection \<open>pre @ post\<close> (exactly \<open>target\<close> removed, the order
  kept) renumbered: a remaining word whose date equals the date of \<open>target\<close> gets the
  number 1 + (the count of such words before it), every other word is left as it is; so
  the numbers of that date are 1..k in collection order, and the numbering invariant holds
  for that date.
\<close>

theorem deleteWord_renumbers:
  assumes fetch: "fetchAllWords w = (pre @ target # post, w1)"
    and uniq: "unique_ids (pre @ target # post)"
    and tgt: "strict_eq (get target ''id'') wordId"
  shows "deleteWord wordId w =
           (Inr True, snd (saveAllWords (renumber (get target ''date'') 1 (pre @ post)) w1))
       \<and> localWords (snd (deleteWord wordId w)) = renumber (get target ''date'') 1 (pre @ post)
       \<and> length (localWords (snd (deleteWord wordId w))) = length (pre @ post)
       \<and> (\<forall>i < length (pre @ post).
            localWords (snd (deleteWord wordId w)) ! i =
              (if strict_eq (get ((pre @ post) ! i) ''date'') (get target ''date'')
               then ((pre @ post) ! i)
                      (''wordNumber'' \<mapsto>
                         JNum (1 + int (length (words_of_date (get target ''date'')
                                                  (take i (pre @ post))))))
               else (pre @ post) ! i))
       \<and> numbers_of_date (get target ''date'') (localWords (snd (deleteWord wordId w))) =
           map JNum [1 .. int (length (words_of_date (get target ''date'') (pre @ post)))]
       \<and> contiguous_numbering (get target ''date'') (localWords (snd (deleteWord wordId w)))"
proof -
  let ?d = "get target ''date''"
  let ?R = "renumber ?d 1 (pre @ post)"
  have eq: "\<And>a b. strict_eq a b \<Longrightarrow> a = b"
    subgoal for a b by (cases a; cases b) auto
    done
  have tid: "get target ''id'' = wordId" using tgt by (rule eq)
  have d: "distinct (map (\<lambda>x. get x ''id'') (pre @ target # post))"
    using uniq by (simp add: unique_ids_def)
  then have "get target ''id'' \<notin> (\<lambda>x. get x ''id'') ` (set pre \<union> set post)"
    by auto
  with tid have "\<forall>x\<in>set pre \<union> set post. get x ''id'' \<noteq> wordId" by blast
  then have none: "\<forall>x\<in>set pre \<union> set post. \<not> strict_eq (get x ''id'') wordId"
    using eq by blast
  then have p1: "\<forall>x\<in>set pre. \<not> strict_eq (get x ''id'') wordId"
    and p2: "\<forall>x\<in>set post. \<not> strict_eq (get x ''id'') wordId" by auto
  have del: "deleteWord wordId w = (Inr True, snd (saveAllWords ?R w1))"
    using fetch p1 p2 tgt by (rule deleteWord_present)
  obtain ok w2 where sv: "saveAllWords ?R w1 = (ok, w2)" by (cases "saveAllWords ?R w1")
  from saveAllWords_frame[OF sv] have "localWords w2 = ?R" by simp
  with del sv have loc: "localWords (snd (deleteWord wordId w)) = ?R" by simp
  have nth: "\<forall>i < length (pre @ post).
            ?R ! i =
              (if strict_eq (get ((pre @ post) ! i) ''date'') ?d
               then ((pre @ post) ! i)
                      (''wordNumber'' \<mapsto>
                         JNum (1 + int (length (words_of_date ?d (take i (pre @ post))))))
               else (pre @ post) ! i)"
    using renumber_nth[of _ "pre @ post" ?d 1] by blast
  have nums: "numbers_of_date ?d ?R = map JNum [1 .. int (length (words_of_date ?d (pre @ post)))]"
    using numbers_renumber[of ?d 1 "pre @ post"] by simp
  have len: "length ?R = length (pre @ post)" by (rule length_renumber)
  have cont: "contiguous_numbering ?d ?R" by (rule contiguous_renumber)
  show ?thesis
    unfolding loc using del nth nums len cont by (intro conjI refl)
qed


theorem deleteWord_renumbers_witness:
  "unique_ids [word_a, word_c, word_b, word_d]
   \<and> strict_eq (get word_a ''id'') (JStr ''a'')
   \<and> fst (deleteWord (JStr ''a'')
        (sample_world [] [] [word_a, word_c, word_b, word_d] net_down)) = Inr True
   \<and> localWords (snd (deleteWord (JStr ''a'')
        (sample_world [] [] [word_a, word_c, word_b, word_d] net_down))) =
       [word_c, word_b(''wordNumber'' \<mapsto> JNum 1), word_d(''wordNumber'' \<mapsto> JNum 2)]
   \<and> contiguous_numbering (JStr ''2026-11-03'') (localWords (snd (deleteWord (JStr ''a'')
        (sample_world [] [] [word_a, word_c, word_b, word_d] net_down))))"
proof -
  let ?W = "sample_world [] [] [word_a, word_c, word_b, word_d] net_down"
  have f: "fetchAllWords ?W = ([] @ word_a # [word_c, word_b, word_d], ?W)"
    by (simp add: fetchAllWords_offline sample_world_def)
  have u: "unique_ids ([] @ word_a # [word_c, word_b, word_d])"
    by (simp add: unique_ids_def sample_fields)
  have t: "strict_eq (get word_a ''id'') (JStr ''a'')"
    by (simp add: sample_fields)
  have r: "renumber (get word_a ''date'') 1 ([] @ [word_c, word_b, word_d]) =
      [word_c, word_b(''wordNumber'' \<mapsto> JNum 1), word_d(''wordNumber'' \<mapsto> JNum 2)]"
    by (simp add: sample_fields)
  note T = deleteWord_renumbers [OF f u t, unfolded r]
  from T have c1: "fst (deleteWord (JStr ''a'') ?W) = Inr True" by simp
  from T have c2: "localWords (snd (deleteWord (JStr ''a'') ?W)) =
      [word_c, word_b(''wordNumber'' \<mapsto> JNum 1), word_d(''wordNumber'' \<mapsto> JNum 2)]"
    by (rule conjunct1[OF conjunct2])
  from T have c3: "contiguous_numbering (get word_a ''date'')
      (localWords (snd (deleteWord (JStr ''a'') ?W)))" by blast
  from u t c1 c2 c3 show ?thesis by (simp add: sample_fields)
qed


text \<open>
  C5 (as amended). When no word of the fetched collection has the given identifier,
  \<open>deleteWord\<close> fails with the not-found error and saves nothing: the state it leaves is
  the state after its initial \<open>fetchAllWords\<close>, whose snapshot equals the fetched
  collection. Without a document identifier the state is unchanged; with one, the only
  events are the sends of the read request and the timers between them, and the snapshot
  is unchanged when the last attempt of the read failed.
\<close>

theorem deleteWord_unknown_id:
  assumes fetch: "fetchAllWords w = (allWords, w1)"
    and none: "\<forall>x\<in>set allWords. \<not> strict_eq (get x ''id'') wordId"
  shows "deleteWord wordId w = (Inl not_found, w1)
       \<and> localWords w1 = allWords
       \<and> (binId w = [] \<longrightarrow> w1 = w)
       \<and> (binId w \<noteq> [] \<longrightarrow>
            (\<exists>k\<le>2. trace w1 = trace w @
                retry_trace (sent (BASE_URL @ ''/b/'' @ binId w @ ''/latest'') ''GET'' NoBody w) k)
            \<and> (failed (network w (fetchCalls w1 - 1)) \<longrightarrow> localWords w1 = localWords w))"
proof -
  have a: "deleteWord wordId w = (Inl not_found, w1)"
    using fetch none by (rule deleteWord_absent)
  have b: "localWords w1 = allWords" using fetchAllWords_frame[OF fetch] by simp
  have c: "binId w = [] \<longrightarrow> w1 = w" using fetch by (auto simp: fetchAllWords_offline)
  have d: "binId w \<noteq> [] \<longrightarrow>
            (\<exists>k\<le>2. trace w1 = trace w @
                retry_trace (sent (BASE_URL @ ''/b/'' @ binId w @ ''/latest'') ''GET'' NoBody w) k)
            \<and> (failed (network w (fetchCalls w1 - 1)) \<longrightarrow> localWords w1 = localWords w)"
  proof
    assume on: "binId w \<noteq> []"
    let ?k = "retries_done (network w) (fetchCalls w) 2"
    let ?u = "BASE_URL @ ''/b/'' @ binId w @ ''/latest''"
    have k: "?k \<le> 2" by (rule retries_done_le)
    from fetch on have t: "trace w1 = trace w @ retry_trace (sent ?u ''GET'' NoBody w) ?k"
      and fc: "fetchCalls w1 = fetchCalls w + ?k + 1"
      by (auto simp: fetchAllWords_online request_run split: sum.splits)
    from fetch on have l: "failed (network w (fetchCalls w + ?k)) \<longrightarrow> localWords w1 = localWords w"
      by (auto simp: fetchAllWords_online request_run failed_def split: sum.splits)
    from k t have "\<exists>k\<le>2. trace w1 = trace w @ retry_trace (sent ?u ''GET'' NoBody w) k" by blast
    moreover from l fc have "failed (network w (fetchCalls w1 - 1)) \<longrightarrow> localWords w1 = localWords w"
      by simp
    ultimately show "(\<exists>k\<le>2. trace w1 = trace w @ retry_trace (sent ?u ''GET'' NoBody w) k)
            \<and> (failed (network w (fetchCalls w1 - 1)) \<longrightarrow> localWords w1 = localWords w)"
      by (rule conjI)
  qed
  from a b c d show ?thesis by (intro conjI)
qed

theorem deleteWord_unknown_id_witness:
  "\<not> strict_eq (get word_a ''id'') (JStr ''zzz'')
   \<and> deleteWord (JStr ''zzz'') (sample_world [] [] [word_a] net_down) =
        (Inl not_found, sample_world [] [] [word_a] net_down)
   \<and> localWords (sample_world [] [] [word_a] net_down) = [word_a]"
proof -
  let ?W = "sample_world [] [] [word_a] net_down"
  have f: "fetchAllWords ?W = ([word_a], ?W)"
    by (simp add: fetchAllWords_offline sample_world_def)
  have n: "\<forall>x\<in>set [word_a]. \<not> strict_eq (get x ''id'') (JStr ''zzz'')"
    by (simp add: sample_fields)
  from deleteWord_unknown_id [OF f n]
  have "deleteWord (JStr ''zzz'') ?W = (Inl not_found, ?W)" by (rule conjunct1)
  moreover have "localWords ?W = [word_a]" by (simp add: sample_world_def)
  moreover have "\<not> strict_eq (get word_a ''id'') (JStr ''zzz'')" by (simp add: sample_fields)
  ultimately show ?thesis by blast
qed

text \<open>
  C5 as stated fails for the snapshot: the initial fetch of \<open>deleteWord\<close> refreshes the
  snapshot from the remote document before the identifier is looked up, so a stale
  snapshot changes (here from empty to one word) although the delete fails.
\<close>

theorem deleteWord_unknown_id_refreshes_snapshot:
  "\<not> strict_eq (get word_a ''id'') (JStr ''zzz'')
   \<and> fst (deleteWord (JStr ''zzz'') (sample_world ''key'' ''bin1'' [] (net_serving [word_a]))) =
        Inl not_found
   \<and> localWords (sample_world ''key'' ''bin1'' [] (net_serving [word_a])) = []
   \<and> localWords (snd (deleteWord (JStr ''zzz'')
        (sample_world ''key'' ''bin1'' [] (net_serving [word_a])))) = [word_a]
   \<and> length (localWords (snd (deleteWord (JStr ''zzz'')
        (sample_world ''key'' ''bin1'' [] (net_serving [word_a]))))) \<noteq>
       length (localWords (sample_world ''key'' ''bin1'' [] (net_serving [word_a])))"
proof -
  let ?W = "sample_world ''key'' ''bin1'' [] (net_serving [word_a])"
  obtain w1 where f: "fetchAllWords ?W = ([word_a], w1)"
    by (simp add: fetchAllWords_online request_run retries_done_2 retryable_def
        sample_world_def net_serving_def)
  have n: "\<forall>x\<in>set [word_a]. \<not> strict_eq (get x ''id'') (JStr ''zzz'')"
    by (simp add: sample_fields)
  from deleteWord_absent [OF f n] have d: "deleteWord (JStr ''zzz'') ?W = (Inl not_found, w1)" .
  from fetchAllWords_frame [OF f] have l: "localWords w1 = [word_a]" by simp
  have e: "localWords ?W = []" by (simp add: sample_world_def)
  from d l e n show ?thesis by simp
qed

section \<open>Properties of \<open>addWord\<close>\<close>

lemma generateId_frame:
  "generateId w = (newId, w2) \<Longrightarrow> w2 = w\<lparr>randomCalls := randomCalls w2\<rparr>"
  by (auto simp: generateId_def split: prod.splits)

lemma addWord_unfold:
  assumes fetch: "fetchAllWords w = (allWords, w1)"
    and gen: "generateId w1 = (newId, w2)"
    and pb: "parseArrayField (get wordData ''banglaMeanings'') = Inr bangla"
    and ps: "parseArrayField (get wordData ''synonyms'') = Inr syns"
    and pa: "parseArrayField (get wordData ''antonyms'') = Inr ants"
    and nw: "newWord =
       [''id'' \<mapsto> JStr newId,
        ''date'' \<mapsto> js_or (get wordData ''date'') (JStr (getDateString (clock w2))),
        ''wordNumber'' \<mapsto> JNum (getNextWordNumber allWords (get wordData ''date'')),
        ''english'' \<mapsto> get wordData ''english'',
        ''ipa'' \<mapsto> js_or (get wordData ''ipa'') (JStr []),
        ''context'' \<mapsto> js_or (get wordData ''context'') (JStr []),
        ''meaning'' \<mapsto> js_or (get wordData ''meaning'') (JStr []),
        ''banglaMeanings'' \<mapsto> JArr bangla,
        ''synonyms'' \<mapsto> JArr syns,
        ''antonyms'' \<mapsto> JArr ants,
        ''isLearned'' \<mapsto> JBool False,
        ''createdAt'' \<mapsto> JStr (toISOString (clock w2))]"
  shows "addWord wordData w = (Inr newWord, snd (saveAllWords (allWords @ [newWord]) w2))"
  unfolding addWord_def fetch nw
  by (simp only: prod.case gen pb ps pa sum.case Let_def split_def fst_conv snd_conv)

lemma addWord_result:
  assumes fetch: "fetchAllWords w = (allWords, w1)"
    and pb: "parseArrayField (get wordData ''banglaMeanings'') = Inr bangla"
    and ps: "parseArrayField (get wordData ''synonyms'') = Inr syns"
    and pa: "parseArrayField (get wordData ''antonyms'') = Inr ants"
  shows "\<exists>newWord.
      addWord wordData w =
        (Inr newWord, snd (saveAllWords (allWords @ [newWord]) (snd (generateId w1))))
    \<and> localWords (snd (addWord wordData w)) = allWords @ [newWord]
    \<and> binId (snd (addWord wordData w)) = binId w
    \<and> get newWord ''id'' = JStr (fst (generateId w1))
    \<and> get newWord ''date'' = js_or (get wordData ''date'') (JStr (getDateString (clock w)))
    \<and> get newWord ''wordNumber'' = JNum (getNextWordNumber allWords (get wordData ''date''))
    \<and> get newWord ''english'' = get wordData ''english''
    \<and> get newWord ''banglaMeanings'' = JArr bangla
    \<and> get newWord ''synonyms'' = JArr syns
    \<and> get newWord ''antonyms'' = JArr ants
    \<and> get newWord ''createdAt'' = JStr (toISOString (clock w))"
proof -
  obtain newId w2 where gen: "generateId w1 = (newId, w2)" by (cases "generateId w1")
  define newWord :: obj where "newWord =
       [''id'' \<mapsto> JStr newId,
        ''date'' \<mapsto> js_or (get wordData ''date'') (JStr (getDateString (clock w2))),
        ''wordNumber'' \<mapsto> JNum (getNextWordNumber allWords (get wordData ''date'')),
        ''english'' \<mapsto> get wordData ''english'',
        ''ipa'' \<mapsto> js_or (get wordData ''ipa'') (JStr []),
        ''context'' \<mapsto> js_or (get wordData ''context'') (JStr []),
        ''meaning'' \<mapsto> js_or (get wordData ''meaning'') (JStr []),
        ''banglaMeanings'' \<mapsto> JArr bangla,
        ''synonyms'' \<mapsto> JArr syns,
        ''antonyms'' \<mapsto> JArr ants,
        ''isLearned'' \<mapsto> JBool False,
        ''createdAt'' \<mapsto> JStr (toISOString (clock w2))]"
  have a: "addWord wordData w = (Inr newWord, snd (saveAllWords (allWords @ [newWord]) w2))"
    using fetch gen pb ps pa newWord_def by (rule addWord_unfold)
  have c1: "clock w1 = clock w" and b1: "binId w1 = binId w"
    using fetchAllWords_frame[OF fetch] by simp_all
  have "w2 = w1\<lparr>randomCalls := randomCalls w2\<rparr>" using gen by (rule generateId_frame)
  then have "clock w2 = clock w1 \<and> binId w2 = binId w1"
    by (metis world.select_convs(2,5) world.surjective world.update_convs(7))
  with c1 b1 have c2: "clock w2 = clock w" and b2: "binId w2 = binId w" by simp_all
  obtain ok w3 where sv: "saveAllWords (allWords @ [newWord]) w2 = (ok, w3)"
    by (cases "saveAllWords (allWords @ [newWord]) w2")
  from saveAllWords_frame[OF sv] b2 have l: "localWords w3 = allWords @ [newWord]"
    and b3: "binId w3 = binId w" by simp_all
  have fields:
    "get newWord ''id'' = JStr newId"
    "get newWord ''date'' = js_or (get wordData ''date'') (JStr (getDateString (clock w2)))"
    "get newWord ''wordNumber'' = JNum (getNextWordNumber allWords (get wordData ''date''))"
    "get newWord ''english'' = get wordData ''english''"
    "get newWord ''banglaMeanings'' = JArr bangla"
    "get newWord ''synonyms'' = JArr syns"
    "get newWord ''antonyms'' = JArr ants"
    "get newWord ''createdAt'' = JStr (toISOString (clock w2))"
    by (simp_all add: newWord_def get_def)
  show ?thesis
    apply (rule exI[of _ newWord])
    using a gen sv l b3 fields c2 by simp
qed









lemma sample_today: "getDateString 1793707200000 = ''2026-11-03''"
  by code_simp

lemma sample_parse:
  "parseArrayField (get input_dated ''banglaMeanings'') = Inr []"
  "parseArrayField (get input_dated ''synonyms'') = Inr [JStr ''x'', JStr ''y'']"
  "parseArrayField (get input_dated ''antonyms'') = Inr []"
  "parseArrayField (get input_undated ''banglaMeanings'') = Inr []"
  "parseArrayField (get input_undated ''synonyms'') = Inr []"
  "parseArrayField (get input_undated ''antonyms'') = Inr []"
  by (simp_all add: input_dated_def input_undated_def get_def trim_def is_ws_def)



lemma numbering_broken_by_append:
  assumes before: "contiguous_numbering d ws"
    and date: "strict_eq (get x ''date'') d"
    and num: "get x ''wordNumber'' = JNum (1 + int c)"
    and diff: "c \<noteq> length (words_of_date d ws)"
  shows "\<not> contiguous_numbering d (ws @ [x])"
proof
  assume after: "contiguous_numbering d (ws @ [x])"
  let ?nums = "numbers_of_date d ws"
  let ?k = "length ?nums"
  have app: "numbers_of_date d (ws @ [x]) = ?nums @ [JNum (1 + int c)]"
    using date num by (simp add: numbers_of_date_def words_of_date_def)
  from before have s0: "set ?nums = JNum ` {1 .. int ?k}"
    by (simp add: contiguous_numbering_def)
  from after app have s1: "set ?nums \<union> {JNum (1 + int c)} = JNum ` {1 .. int ?k + 1}"
    by (simp add: contiguous_numbering_def add.commute)
  have "JNum (int ?k + 1) \<in> JNum ` {1 .. int ?k + 1}" by simp
  with s1 have "JNum (int ?k + 1) \<in> set ?nums \<union> {JNum (1 + int c)}" by simp
  moreover have "JNum (int ?k + 1) \<notin> set ?nums" unfolding s0 by auto
  ultimately have "int ?k + 1 = 1 + int c" by simp
  then have "c = ?k" by simp
  with diff show False by (simp add: numbers_of_date_def)
qed

text \<open>
  C10. When the input has no \<open>date\<close> property, the created word is dated today (the date
  of the clock), but its number is 1 + the count of fetched words whose date is
  \<open>undefined\<close>. Hence whenever the numbering of today's words was contiguous before and that
  count differs from the count of today's words (for instance: some word is dated today and
  every word has a date), the saved collection violates the contiguous numbering for today.
\<close>

theorem addWord_undated_number:
  assumes fetch: "fetchAllWords w = (allWords, w1)"
    and absent: "wordData ''date'' = None"
    and pb: "parseArrayField (get wordData ''banglaMeanings'') = Inr bangla"
    and ps: "parseArrayField (get wordData ''synonyms'') = Inr syns"
    and pa: "parseArrayField (get wordData ''antonyms'') = Inr ants"
  shows "\<exists>newWord.
      fst (addWord wordData w) = Inr newWord
    \<and> localWords (snd (addWord wordData w)) = allWords @ [newWord]
    \<and> get newWord ''date'' = JStr (getDateString (clock w))
    \<and> get newWord ''wordNumber'' = JNum (1 + int (length (words_of_date JUndefined allWords)))
    \<and> (contiguous_numbering (JStr (getDateString (clock w))) allWords
        \<and> length (words_of_date JUndefined allWords) \<noteq>
            length (words_of_date (JStr (getDateString (clock w))) allWords)
        \<longrightarrow> \<not> contiguous_numbering (JStr (getDateString (clock w))) (allWords @ [newWord]))"
proof -
  let ?today = "JStr (getDateString (clock w))"
  from absent have u: "get wordData ''date'' = JUndefined" by (simp add: get_def)
  from addWord_result[OF fetch pb ps pa] obtain newWord where
    a: "addWord wordData w =
        (Inr newWord, snd (saveAllWords (allWords @ [newWord]) (snd (generateId w1))))"
    and l: "localWords (snd (addWord wordData w)) = allWords @ [newWord]"
    and d: "get newWord ''date'' = js_or (get wordData ''date'') ?today"
    and num: "get newWord ''wordNumber'' = JNum (getNextWordNumber allWords (get wordData ''date''))"
    by blast
  from a have a': "fst (addWord wordData w) = Inr newWord" by simp
  from d u have d': "get newWord ''date'' = ?today" by (simp add: js_or_def)
  from num u have num': "get newWord ''wordNumber'' =
      JNum (1 + int (length (words_of_date JUndefined allWords)))"
    by (simp add: getNextWordNumber_def words_of_date_def)
  have viol: "contiguous_numbering ?today allWords
        \<and> length (words_of_date JUndefined allWords) \<noteq> length (words_of_date ?today allWords)
        \<longrightarrow> \<not> contiguous_numbering ?today (allWords @ [newWord])"
  proof
    assume h: "contiguous_numbering ?today allWords
        \<and> length (words_of_date JUndefined allWords) \<noteq> length (words_of_date ?today allWords)"
    have se: "strict_eq (get newWord ''date'') ?today" by (simp add: d')
    from h show "\<not> contiguous_numbering ?today (allWords @ [newWord])"
      using numbering_broken_by_append[OF _ se num'] by blast
  qed
  from a' l d' num' viol show ?thesis by blast
qed

theorem addWord_undated_number_witness:
  "input_undated ''date'' = None
   \<and> words_of_date (JStr ''2026-11-03'') [word_a] = [word_a]
   \<and> contiguous_numbering (JStr ''2026-11-03'') [word_a]
   \<and> (\<exists>newWord.
        fst (addWord input_undated (sample_world [] [] [word_a] net_down)) = Inr newWord
        \<and> localWords (snd (addWord input_undated (sample_world [] [] [word_a] net_down))) =
            [word_a, newWord]
        \<and> get newWord ''date'' = JStr ''2026-11-03''
        \<and> get newWord ''wordNumber'' = JNum 1
        \<and> \<not> contiguous_numbering (JStr ''2026-11-03'') [word_a, newWord])"
proof -
  let ?W = "sample_world [] [] [word_a] net_down"
  have f: "fetchAllWords ?W = ([word_a], ?W)"
    by (simp add: fetchAllWords_offline sample_world_def)
  have ab: "input_undated ''date'' = None" by (simp add: input_undated_def)
  have today: "getDateString (clock ?W) = ''2026-11-03''"
    by (simp add: sample_world_def sample_today)
  have wd: "words_of_date (JStr ''2026-11-03'') [word_a] = [word_a]"
    by (simp add: words_of_date_def sample_fields)
  have wu: "words_of_date JUndefined [word_a] = []"
    by (simp add: words_of_date_def sample_fields)
  have c: "contiguous_numbering (JStr ''2026-11-03'') [word_a]"
    by (simp add: contiguous_numbering_def numbers_of_date_def wd sample_fields)
  from addWord_undated_number [OF f ab sample_parse(4) sample_parse(5) sample_parse(6),
       unfolded today wd wu]
  obtain newWord where
    a: "fst (addWord input_undated ?W) = Inr newWord"
    and l: "localWords (snd (addWord input_undated ?W)) = [word_a] @ [newWord]"
    and d: "get newWord ''date'' = JStr ''2026-11-03''"
    and num: "get newWord ''wordNumber'' = JNum (1 + int (length ([]::obj list)))"
    and v: "contiguous_numbering (JStr ''2026-11-03'') [word_a]
        \<and> length ([]::obj list) \<noteq> length [word_a]
        \<longrightarrow> \<not> contiguous_numbering (JStr ''2026-11-03'') ([word_a] @ [newWord])"
    by blast
  from v c have v': "\<not> contiguous_numbering (JStr ''2026-11-03'') [word_a, newWord]" by simp
  from num have num': "get newWord ''wordNumber'' = JNum 1" by simp
  from l have l': "localWords (snd (addWord input_undated ?W)) = [word_a, newWord]" by simp
  from a l' d num' v' have "\<exists>newWord.
        fst (addWord input_undated ?W) = Inr newWord
        \<and> localWords (snd (addWord input_undated ?W)) = [word_a, newWord]
        \<and> get newWord ''date'' = JStr ''2026-11-03''
        \<and> get newWord ''wordNumber'' = JNum 1
        \<and> \<not> contiguous_numbering (JStr ''2026-11-03'') [word_a, newWord]"
    by blast
  with ab wd c show ?thesis by blast
qed

section \<open>Properties of \<open>updateWord\<close>\<close>

lemma findIndex_None: "findIndex P xs = None \<longleftrightarrow> (\<forall>x\<in>set xs. \<not> P x)"
  by (induction xs) auto

lemma findIndex_Some:
  "findIndex P xs = Some i \<Longrightarrow> i < length xs \<and> P (xs ! i) \<and> (\<forall>j<i. \<not> P (xs ! j))"
proof (induction xs arbitrary: i)
  case Nil
  then show ?case by simp
next
  case (Cons x xs)
  show ?case
  proof (cases "P x")
    case True
    with Cons.prems show ?thesis by simp
  next
    case False
    with Cons.prems obtain i' where i': "findIndex P xs = Some i'" "i = Suc i'" by auto
    from Cons.IH[OF i'(1)] False i'(2) show ?thesis
      by (auto simp: nth_Cons split: nat.splits)
  qed
qed


lemma updateWord_unfold:
  assumes fetch: "fetchAllWords w = (allWords, w1)"
    and idx: "findIndex (\<lambda>x. strict_eq (get x ''id'') wordId) allWords = Some index"
    and mb: "merged_field (allWords ! index) updates ''banglaMeanings'' = Inr bangla"
    and ms: "merged_field (allWords ! index) updates ''synonyms'' = Inr syns"
    and ma: "merged_field (allWords ! index) updates ''antonyms'' = Inr ants"
    and up: "updated = ((allWords ! index) ++ updates)
                     (''banglaMeanings'' \<mapsto> bangla,
                      ''synonyms'' \<mapsto> syns,
                      ''antonyms'' \<mapsto> ants,
                      ''updatedAt'' \<mapsto> JStr (toISOString (clock w1)))"
  shows "updateWord wordId updates w =
     (Inr updated, snd (saveAllWords (allWords[index := updated]) w1))"
  unfolding updateWord_def fetch up
  by (simp only: prod.case idx option.case mb ms ma sum.case Let_def split_def fst_conv snd_conv)

lemma merged_field_value:
  assumes "parseArrayField (get updates k) = Inr xs"
  shows "merged_field old updates k =
     Inr (if get updates k \<noteq> JUndefined then JArr xs else get old k)"
  using assms by (simp add: merged_field_def)

lemma updateWord_result:
  assumes fetch: "fetchAllWords w = (allWords, w1)"
    and found: "\<exists>x\<in>set allWords. strict_eq (get x ''id'') wordId"
    and pb: "parseArrayField (get updates ''banglaMeanings'') = Inr bangla"
    and ps: "parseArrayField (get updates ''synonyms'') = Inr syns"
    and pa: "parseArrayField (get updates ''antonyms'') = Inr ants"
  shows "\<exists>index updated.
      index < length allWords
    \<and> strict_eq (get (allWords ! index) ''id'') wordId
    \<and> (\<forall>j<index. \<not> strict_eq (get (allWords ! j) ''id'') wordId)
    \<and> updateWord wordId updates w =
        (Inr updated, snd (saveAllWords (allWords[index := updated]) w1))
    \<and> localWords (snd (updateWord wordId updates w)) = allWords[index := updated]
    \<and> updated = ((allWords ! index) ++ updates)
         (''banglaMeanings'' \<mapsto>
            (if get updates ''banglaMeanings'' \<noteq> JUndefined then JArr bangla
             else get (allWords ! index) ''banglaMeanings''),
          ''synonyms'' \<mapsto>
            (if get updates ''synonyms'' \<noteq> JUndefined then JArr syns
             else get (allWords ! index) ''synonyms''),
          ''antonyms'' \<mapsto>
            (if get updates ''antonyms'' \<noteq> JUndefined then JArr ants
             else get (allWords ! index) ''antonyms''),
          ''updatedAt'' \<mapsto> JStr (toISOString (clock w)))"
proof -
  let ?P = "\<lambda>x. strict_eq (get x ''id'') wordId"
  from found have "findIndex ?P allWords \<noteq> None" by (simp add: findIndex_None)
  then obtain index where idx: "findIndex ?P allWords = Some index" by auto
  note first = findIndex_Some[OF idx]
  let ?old = "allWords ! index"
  define updated :: obj where "updated = (?old ++ updates)
         (''banglaMeanings'' \<mapsto>
            (if get updates ''banglaMeanings'' \<noteq> JUndefined then JArr bangla
             else get ?old ''banglaMeanings''),
          ''synonyms'' \<mapsto>
            (if get updates ''synonyms'' \<noteq> JUndefined then JArr syns
             else get ?old ''synonyms''),
          ''antonyms'' \<mapsto>
            (if get updates ''antonyms'' \<noteq> JUndefined then JArr ants
             else get ?old ''antonyms''),
          ''updatedAt'' \<mapsto> JStr (toISOString (clock w1)))"
  have u: "updateWord wordId updates w =
        (Inr updated, snd (saveAllWords (allWords[index := updated]) w1))"
    using fetch idx merged_field_value[OF pb] merged_field_value[OF ps]
      merged_field_value[OF pa] updated_def
    by (rule updateWord_unfold)
  obtain ok w2 where sv: "saveAllWords (allWords[index := updated]) w1 = (ok, w2)"
    by (cases "saveAllWords (allWords[index := updated]) w1")
  from saveAllWords_frame[OF sv] have l: "localWords w2 = allWords[index := updated]" by simp
  have c: "clock w1 = clock w" using fetchAllWords_frame[OF fetch] by simp
  from u sv l have l': "localWords (snd (updateWord wordId updates w)) = allWords[index := updated]"
    by simp
  show ?thesis
    apply (rule exI[of _ index])
    apply (rule exI[of _ updated])
    using first u l' updated_def[unfolded c] by blast
qed


lemma patch_parse:
  "parseArrayField (get patch_edit ''banglaMeanings'') = Inr []"
  "parseArrayField (get patch_edit ''synonyms'') = Inr []"
  "parseArrayField (get patch_edit ''antonyms'') = Inr [JStr ''x'', JStr ''y'']"
  "parseArrayField (get patch_redate ''banglaMeanings'') = Inr []"
  "parseArrayField (get patch_redate ''synonyms'') = Inr []"
  "parseArrayField (get patch_redate ''antonyms'') = Inr []"
  by (simp_all add: patch_edit_def patch_redate_def get_def trim_def is_ws_def)

lemma first_of_two:
  assumes "index < length [word_a, word_b]"
    and "strict_eq (get ([word_a, word_b] ! index) ''id'') (JStr ''a'')"
  shows "index = 0"
proof (rule ccontr)
  assume "index \<noteq> 0"
  with assms(1) have "index = 1" by simp
  with assms(2) show False by (simp add: sample_fields)
qed


text \<open>
  C4 (as amended). When the collection has a word with the given id, \<open>updateWord\<close> leaves
  each of \<open>id\<close>, \<open>date\<close> and \<open>createdAt\<close> of that word unchanged exactly when the patch
  does not contain that property; a patch that contains one of them replaces it.
\<close>

theorem updateWord_protected_fields:
  assumes fetch: "fetchAllWords w = (allWords, w1)"
    and found: "\<exists>x\<in>set allWords. strict_eq (get x ''id'') wordId"
    and pb: "parseArrayField (get updates ''banglaMeanings'') = Inr bangla"
    and ps: "parseArrayField (get updates ''synonyms'') = Inr syns"
    and pa: "parseArrayField (get updates ''antonyms'') = Inr ants"
  shows "\<exists>index updated.
      index < length allWords
    \<and> strict_eq (get (allWords ! index) ''id'') wordId
    \<and> fst (updateWord wordId updates w) = Inr updated
    \<and> localWords (snd (updateWord wordId updates w)) = allWords[index := updated]
    \<and> (\<forall>k\<in>{''id'', ''date'', ''createdAt''}.
          (updates k = None \<longrightarrow> updated k = (allWords ! index) k)
        \<and> (\<forall>v. updates k = Some v \<longrightarrow> updated k = Some v))"
proof -
  from updateWord_result[OF fetch found pb ps pa] obtain index updated where
    i: "index < length allWords"
    and m: "strict_eq (get (allWords ! index) ''id'') wordId"
    and u: "updateWord wordId updates w =
        (Inr updated, snd (saveAllWords (allWords[index := updated]) w1))"
    and l: "localWords (snd (updateWord wordId updates w)) = allWords[index := updated]"
    and up: "updated = ((allWords ! index) ++ updates)
         (''banglaMeanings'' \<mapsto>
            (if get updates ''banglaMeanings'' \<noteq> JUndefined then JArr bangla
             else get (allWords ! index) ''banglaMeanings''),
          ''synonyms'' \<mapsto>
            (if get updates ''synonyms'' \<noteq> JUndefined then JArr syns
             else get (allWords ! index) ''synonyms''),
          ''antonyms'' \<mapsto>
            (if get updates ''antonyms'' \<noteq> JUndefined then JArr ants
             else get (allWords ! index) ''antonyms''),
          ''updatedAt'' \<mapsto> JStr (toISOString (clock w)))"
    by (elim exE conjE) (rule that)
  from u have r: "fst (updateWord wordId updates w) = Inr updated" by simp
  have keep: "\<forall>k\<in>{''id'', ''date'', ''createdAt''}.
          (updates k = None \<longrightarrow> updated k = (allWords ! index) k)
        \<and> (\<forall>v. updates k = Some v \<longrightarrow> updated k = Some v)"
    unfolding up by (simp add: map_add_def)
  from i m r l keep show ?thesis
    by (intro exI[of _ index] exI[of _ updated] conjI)
qed

theorem updateWord_protected_fields_witness:
  "strict_eq (get word_a ''id'') (JStr ''a'')
   \<and> patch_edit ''id'' = None \<and> patch_edit ''date'' = None \<and> patch_edit ''createdAt'' = None
   \<and> (\<exists>updated.
        fst (updateWord (JStr ''a'') patch_edit (sample_world [] [] [word_a, word_b] net_down)) =
          Inr updated
        \<and> localWords (snd (updateWord (JStr ''a'') patch_edit
             (sample_world [] [] [word_a, word_b] net_down))) = [updated, word_b]
        \<and> updated ''id'' = word_a ''id''
        \<and> updated ''date'' = word_a ''date''
        \<and> updated ''createdAt'' = word_a ''createdAt'')"
proof -
  let ?W = "sample_world [] [] [word_a, word_b] net_down"
  have f: "fetchAllWords ?W = ([word_a, word_b], ?W)"
    by (simp add: fetchAllWords_offline sample_world_def)
  have ia: "strict_eq (get word_a ''id'') (JStr ''a'')" by (simp add: sample_fields)
  have ab: "patch_edit ''id'' = None" "patch_edit ''date'' = None"
    "patch_edit ''createdAt'' = None" by (simp_all add: patch_edit_def)
  have some: "\<exists>x\<in>set [word_a, word_b]. strict_eq (get x ''id'') (JStr ''a'')"
    using ia by simp
  from updateWord_protected_fields [OF f some patch_parse(1) patch_parse(2) patch_parse(3)]
  obtain index updated where
    i: "index < length [word_a, word_b]"
    and m: "strict_eq (get ([word_a, word_b] ! index) ''id'') (JStr ''a'')"
    and r: "fst (updateWord (JStr ''a'') patch_edit ?W) = Inr updated"
    and l: "localWords (snd (updateWord (JStr ''a'') patch_edit ?W)) =
        [word_a, word_b][index := updated]"
    and keep: "\<forall>k\<in>{''id'', ''date'', ''createdAt''}.
          (patch_edit k = None \<longrightarrow> updated k = ([word_a, word_b] ! index) k)
        \<and> (\<forall>v. patch_edit k = Some v \<longrightarrow> updated k = Some v)"
    by (elim exE conjE) (rule that)
  from first_of_two[OF i m] have i0: "index = 0" .
  from l i0 have l': "localWords (snd (updateWord (JStr ''a'') patch_edit ?W)) = [updated, word_b]"
    by simp
  from keep ab i0 have k: "updated ''id'' = word_a ''id''" "updated ''date'' = word_a ''date''"
    "updated ''createdAt'' = word_a ''createdAt''" by simp_all
  from r l' k have "\<exists>updated.
        fst (updateWord (JStr ''a'') patch_edit ?W) = Inr updated
        \<and> localWords (snd (updateWord (JStr ''a'') patch_edit ?W)) = [updated, word_b]
        \<and> updated ''id'' = word_a ''id''
        \<and> updated ''date'' = word_a ''date''
        \<and> updated ''createdAt'' = word_a ''createdAt''"
    by (intro exI[of _ updated] conjI)
  with ia ab show ?thesis by (intro conjI)
qed

text \<open>
  C4 as stated fails: the patch is spread over the word without any guard, so a patch
  with a \<open>date\<close> property replaces the date of the stored word.
\<close>

theorem updateWord_patch_replaces_date:
  "get (localWords (sample_world [] [] [word_a, word_b] net_down) ! 0) ''id'' = JStr ''a''
   \<and> get (localWords (sample_world [] [] [word_a, word_b] net_down) ! 0) ''date'' =
       JStr ''2026-11-03''
   \<and> get (localWords (snd (updateWord (JStr ''a'') patch_redate
        (sample_world [] [] [word_a, word_b] net_down))) ! 0) ''id'' = JStr ''a''
   \<and> get (localWords (snd (updateWord (JStr ''a'') patch_redate
        (sample_world [] [] [word_a, word_b] net_down))) ! 0) ''date'' = JStr ''1999-01-01''"
proof -
  let ?W = "sample_world [] [] [word_a, word_b] net_down"
  have f: "fetchAllWords ?W = ([word_a, word_b], ?W)"
    by (simp add: fetchAllWords_offline sample_world_def)
  have some: "\<exists>x\<in>set [word_a, word_b]. strict_eq (get x ''id'') (JStr ''a'')"
    by (simp add: sample_fields)
  from updateWord_result [OF f some patch_parse(4) patch_parse(5) patch_parse(6)]
  obtain index updated where
    i: "index < length [word_a, word_b]"
    and m: "strict_eq (get ([word_a, word_b] ! index) ''id'') (JStr ''a'')"
    and l: "localWords (snd (updateWord (JStr ''a'') patch_redate ?W)) =
        [word_a, word_b][index := updated]"
    and up: "updated = (([word_a, word_b] ! index) ++ patch_redate)
         (''banglaMeanings'' \<mapsto>
            (if get patch_redate ''banglaMeanings'' \<noteq> JUndefined then JArr []
             else get ([word_a, word_b] ! index) ''banglaMeanings''),
          ''synonyms'' \<mapsto>
            (if get patch_redate ''synonyms'' \<noteq> JUndefined then JArr []
             else get ([word_a, word_b] ! index) ''synonyms''),
          ''antonyms'' \<mapsto>
            (if get patch_redate ''antonyms'' \<noteq> JUndefined then JArr []
             else get ([word_a, word_b] ! index) ''antonyms''),
          ''updatedAt'' \<mapsto> JStr (toISOString (clock ?W)))"
    by (elim exE conjE) (rule that)
  from first_of_two[OF i m] have i0: "index = 0" .
  have d: "get updated ''date'' = JStr ''1999-01-01''"
    unfolding up by (simp add: get_def map_add_def patch_redate_def)
  have a: "get updated ''id'' = JStr ''a''"
    unfolding up i0 by (simp add: get_def map_add_def patch_redate_def word_a_def)
  from l i0 have "localWords (snd (updateWord (JStr ''a'') patch_redate ?W)) ! 0 = updated"
    by simp
  with d a show ?thesis by (simp add: sample_world_def sample_fields)
qed

section \<open>Properties of the date functions\<close>

lemma century_bounds:
  fixes doe :: int
  assumes "0 \<le> doe" "doe < 146097"
  defines "c \<equiv> min (doe div 36524) 3"
  shows "0 \<le> c \<and> c \<le> 3 \<and> 0 \<le> doe - 36524 * c \<and> doe - 36524 * c \<le> 36524"
  unfolding c_def using assms(1,2) by (auto simp: min_def) 

lemma cycle_bounds:
  fixes r1 :: int
  assumes "0 \<le> r1" "r1 \<le> 36524"
  shows "0 \<le> r1 div 1461 \<and> r1 div 1461 \<le> 24 \<and> 0 \<le> r1 mod 1461 \<and> r1 mod 1461 \<le> 1460"
  using assms by auto

lemma year_bounds:
  fixes r2 :: int
  assumes "0 \<le> r2" "r2 \<le> 1460"
  defines "n \<equiv> min (r2 div 365) 3"
  shows "0 \<le> n \<and> n \<le> 3 \<and> 0 \<le> r2 - 365 * n \<and> r2 - 365 * n \<le> 365"
  unfolding n_def using assms(1,2) by (auto simp: min_def) 


lemma yoe_parts:
  fixes c q n :: int
  assumes "0 \<le> c" "c \<le> 3" "0 \<le> q" "q \<le> 24" "0 \<le> n" "n \<le> 3"
  shows "(100 * c + 4 * q + n) div 4 = 25 * c + q"
    and "(100 * c + 4 * q + n) div 100 = c"
    and "0 \<le> 100 * c + 4 * q + n" and "100 * c + 4 * q + n \<le> 399"
  using assms by auto

lemma month_parts:
  fixes doy :: int
  assumes "0 \<le> doy" "doy \<le> 365"
  defines "mp \<equiv> (5 * doy + 2) div 153"
  shows "0 \<le> mp \<and> mp \<le> 11
       \<and> 1 \<le> doy - (153 * mp + 2) div 5 + 1 \<and> doy - (153 * mp + 2) div 5 + 1 \<le> 31"
  unfolding mp_def using assms(1,2) by auto

lemma era_parts:
  fixes era yoe :: int
  assumes "0 \<le> yoe" "yoe \<le> 399"
  shows "(yoe + era * 400) div 400 = era" and "(yoe + era * 400) mod 400 = yoe"
  using assms by auto

lemma days_from_civil_inverse: "days_from_civil (civil_from_days z0) = z0"
proof -
  define z where "z = z0 + 719468"
  define era where "era = z div 146097"
  define doe where "doe = z mod 146097"
  define c where "c = min (doe div 36524) 3"
  define r1 where "r1 = doe - 36524 * c"
  define q where "q = r1 div 1461"
  define r2 where "r2 = r1 mod 1461"
  define n where "n = min (r2 div 365) 3"
  define doy where "doy = r2 - 365 * n"
  define yoe where "yoe = 100 * c + 4 * q + n"
  define mp where "mp = (5 * doy + 2) div 153"
  define d where "d = doy - (153 * mp + 2) div 5 + 1"
  define m where "m = (if mp < 10 then mp + 3 else mp - 9)"
  define y where "y = yoe + era * 400"
  have civ: "civil_from_days z0 = (if m \<le> 2 then y + 1 else y, m, d)"
    unfolding civil_from_days_def Let_def
    by (simp only: z_def era_def doe_def c_def r1_def q_def r2_def n_def doy_def yoe_def
          mp_def d_def m_def y_def)
  have doe: "0 \<le> doe" "doe < 146097" by (simp_all add: doe_def)
  from century_bounds[OF doe] have cb: "0 \<le> c" "c \<le> 3" "0 \<le> r1" "r1 \<le> 36524"
    by (simp_all add: c_def r1_def)
  from cycle_bounds[OF cb(3,4)] have qb: "0 \<le> q" "q \<le> 24" "0 \<le> r2" "r2 \<le> 1460"
    by (simp_all add: q_def r2_def)
  from year_bounds[OF qb(3,4)] have nb: "0 \<le> n" "n \<le> 3" "0 \<le> doy" "doy \<le> 365"
    by (simp_all add: n_def doy_def)
  note yp = yoe_parts[OF cb(1,2) qb(1,2) nb(1,2), folded yoe_def]
  from month_parts[OF nb(3,4)] have mb: "0 \<le> mp" "mp \<le> 11" "1 \<le> d" "d \<le> 31"
    by (simp_all add: mp_def d_def)
  have r1q: "r1 = 1461 * q + r2" by (simp add: q_def r2_def)
  have back_m: "(if m > 2 then m - 3 else m + 9) = mp"
    using mb(1,2) by (auto simp: m_def)
  have back_y: "(if m \<le> 2 then (if m \<le> 2 then y + 1 else y) - 1 else (if m \<le> 2 then y + 1 else y)) = y"
    by simp
  have back_doy: "(153 * mp + 2) div 5 + d - 1 = doy" by (simp add: d_def)
  have back_doe: "yoe * 365 + yoe div 4 - yoe div 100 + doy = doe"
    unfolding yp(1) yp(2) using r1q by (simp add: yoe_def doy_def r1_def)
  have zed: "era * 146097 + doe = z" by (simp add: era_def doe_def)
  have "days_from_civil (civil_from_days z0) =
      (y div 400) * 146097 + ((y mod 400) * 365 + (y mod 400) div 4 - (y mod 400) div 100 + doy) - 719468"
    unfolding civ days_from_civil_def Let_def prod.case back_y back_m back_doy ..
  also have "\<dots> = era * 146097 + doe - 719468"
    unfolding y_def era_parts[OF yp(3,4)] back_doe ..
  also have "\<dots> = z0" using zed by (simp add: z_def)
  finally show ?thesis .
qed

lemma civil_from_days_inj: "civil_from_days a = civil_from_days b \<Longrightarrow> a = b"
  by (metis days_from_civil_inverse)


lemma civil_from_days_range:
  "\<exists>y m d. civil_from_days z0 = (y, m, d) \<and> 1 \<le> m \<and> m \<le> 12 \<and> 1 \<le> d \<and> d \<le> 31
     \<and> ((z0 + 719468) div 146097) * 400 \<le> y
     \<and> y \<le> ((z0 + 719468) div 146097) * 400 + 400"
proof -
  define z where "z = z0 + 719468"
  define era where "era = z div 146097"
  define doe where "doe = z mod 146097"
  define c where "c = min (doe div 36524) 3"
  define r1 where "r1 = doe - 36524 * c"
  define q where "q = r1 div 1461"
  define r2 where "r2 = r1 mod 1461"
  define n where "n = min (r2 div 365) 3"
  define doy where "doy = r2 - 365 * n"
  define yoe where "yoe = 100 * c + 4 * q + n"
  define mp where "mp = (5 * doy + 2) div 153"
  define d where "d = doy - (153 * mp + 2) div 5 + 1"
  define m where "m = (if mp < 10 then mp + 3 else mp - 9)"
  define y where "y = yoe + era * 400"
  have civ: "civil_from_days z0 = (if m \<le> 2 then y + 1 else y, m, d)"
    unfolding civil_from_days_def Let_def
    by (simp only: z_def era_def doe_def c_def r1_def q_def r2_def n_def doy_def yoe_def
          mp_def d_def m_def y_def)
  have doe: "0 \<le> doe" "doe < 146097" by (simp_all add: doe_def)
  from century_bounds[OF doe] have cb: "0 \<le> c" "c \<le> 3" "0 \<le> r1" "r1 \<le> 36524"
    by (simp_all add: c_def r1_def)
  from cycle_bounds[OF cb(3,4)] have qb: "0 \<le> q" "q \<le> 24" "0 \<le> r2" "r2 \<le> 1460"
    by (simp_all add: q_def r2_def)
  from year_bounds[OF qb(3,4)] have nb: "0 \<le> n" "n \<le> 3" "0 \<le> doy" "doy \<le> 365"
    by (simp_all add: n_def doy_def)
  note yp = yoe_parts[OF cb(1,2) qb(1,2) nb(1,2), folded yoe_def]
  from month_parts[OF nb(3,4)] have mb: "0 \<le> mp" "mp \<le> 11" "1 \<le> d" "d \<le> 31"
    by (simp_all add: mp_def d_def)
  have mr: "1 \<le> m" "m \<le> 12" using mb(1,2) by (auto simp: m_def)
  have yr: "era * 400 \<le> (if m \<le> 2 then y + 1 else y)"
    "(if m \<le> 2 then y + 1 else y) \<le> era * 400 + 400"
    using yp(3,4) by (auto simp: y_def)
  show ?thesis
    apply (rule exI[of _ "if m \<le> 2 then y + 1 else y"])
    apply (rule exI[of _ m])
    apply (rule exI[of _ d])
    using civ mr mb(3,4) yr unfolding era_def z_def by (intro conjI)
qed

lemma valid_day:
  assumes "valid_time t"
  shows "- 100000000 \<le> t div msPerDay \<and> t div msPerDay \<le> 100000000"
  using assms unfolding valid_time_def msPerDay_def by auto

lemma valid_year:
  assumes "- 100000000 \<le> z0" "z0 \<le> 100000000"
    and "civil_from_days z0 = (y, m, d)"
  shows "\<bar>y\<bar> \<le> 999999"
proof -
  from civil_from_days_range[of z0] assms(3)
  have b: "((z0 + 719468) div 146097) * 400 \<le> y" "y \<le> ((z0 + 719468) div 146097) * 400 + 400"
    by auto
  have "- 690 \<le> (z0 + 719468) div 146097" "(z0 + 719468) div 146097 \<le> 690"
    using assms(1,2) by auto
  with b show ?thesis by auto
qed

lemma digit_inj: "digit a = digit b \<Longrightarrow> a mod 10 = b mod 10"
proof -
  assume e: "digit a = digit b"
  have d: "distinct ''0123456789''" by simp
  have la: "nat (a mod 10) < length ''0123456789''" and lb: "nat (b mod 10) < length ''0123456789''"
    by simp_all
  from e have "''0123456789'' ! nat (a mod 10) = ''0123456789'' ! nat (b mod 10)"
    by (simp only: digit_def)
  with nth_eq_iff_index_eq[OF d la lb] have "nat (a mod 10) = nat (b mod 10)" by simp
  then show ?thesis by simp
qed

lemma digit_in: "digit a \<in> set ''0123456789''"
proof -
  have "nat (a mod 10) < length ''0123456789''" by simp
  then show ?thesis unfolding digit_def by (rule nth_mem)
qed

lemma div_mod_same:
  fixes x y :: int
  assumes "x div 10 = y div 10" "x mod 10 = y mod 10"
  shows "x = y"
proof -
  have "x = x div 10 * 10 + x mod 10" by simp
  also have "\<dots> = y div 10 * 10 + y mod 10" by (simp only: assms)
  also have "\<dots> = y" by simp
  finally show ?thesis .
qed

lemma div_steps:
  fixes a :: int
  shows "a div 100 = a div 10 div 10" "a div 1000 = a div 100 div 10"
    "a div 10000 = a div 1000 div 10" "a div 100000 = a div 10000 div 10"
  by simp_all

lemma top_digit:
  fixes x y :: int
  assumes "x mod 10 = y mod 10" "0 \<le> x" "x < 10" "0 \<le> y" "y < 10"
  shows "x = y"
  using assms by simp

lemma pad2_inj:
  assumes "pad2 a = pad2 b" "0 \<le> a" "a < 100" "0 \<le> b" "b < 100"
  shows "a = b"
proof -
  from assms(1) have d: "digit (a div 10) = digit (b div 10)" "digit (a) = digit (b)"
    by (simp_all only: pad2_def list.inject)
  have e: "(a div 10) mod 10 = (b div 10) mod 10" "(a) mod 10 = (b) mod 10"
    by (rule digit_inj, rule d)+
  have ba: "0 \<le> a div 10" "a div 10 < 10" using assms(2,3) by auto
  have bb: "0 \<le> b div 10" "b div 10 < 10" using assms(4,5) by auto
  have "a div 10 = b div 10"
    using e(1) ba bb by (rule top_digit)
  then show ?thesis using e(2) by (rule div_mod_same)
qed

lemma pad4_inj:
  assumes "pad4 a = pad4 b" "0 \<le> a" "a \<le> 9999" "0 \<le> b" "b \<le> 9999"
  shows "a = b"
proof -
  from assms(1) have d: "digit (a div 1000) = digit (b div 1000)" "digit (a div 100) = digit (b div 100)" "digit (a div 10) = digit (b div 10)" "digit (a) = digit (b)"
    by (simp_all only: pad4_def list.inject)
  have e: "(a div 1000) mod 10 = (b div 1000) mod 10" "(a div 100) mod 10 = (b div 100) mod 10" "(a div 10) mod 10 = (b div 10) mod 10" "(a) mod 10 = (b) mod 10"
    by (rule digit_inj, rule d)+
  have ba: "0 \<le> a div 1000" "a div 1000 < 10" using assms(2,3) by auto
  have bb: "0 \<le> b div 1000" "b div 1000 < 10" using assms(4,5) by auto
  have "a div 1000 = b div 1000"
    using e(1) ba bb by (rule top_digit)
  then have "a div 100 div 10 = b div 100 div 10" by (simp only: div_steps(2)[symmetric])
  then have "a div 100 = b div 100" using e(2) by (rule div_mod_same)
  then have "a div 10 div 10 = b div 10 div 10" by (simp only: div_steps(1)[symmetric])
  then have "a div 10 = b div 10" using e(3) by (rule div_mod_same)
  then show ?thesis using e(4) by (rule div_mod_same)
qed

lemma pad6_inj:
  assumes "pad6 a = pad6 b" "0 \<le> a" "a \<le> 999999" "0 \<le> b" "b \<le> 999999"
  shows "a = b"
proof -
  from assms(1) have d: "digit (a div 100000) = digit (b div 100000)" "digit (a div 10000) = digit (b div 10000)" "digit (a div 1000) = digit (b div 1000)" "digit (a div 100) = digit (b div 100)" "digit (a div 10) = digit (b div 10)" "digit (a) = digit (b)"
    by (simp_all only: pad6_def list.inject)
  have e: "(a div 100000) mod 10 = (b div 100000) mod 10" "(a div 10000) mod 10 = (b div 10000) mod 10" "(a div 1000) mod 10 = (b div 1000) mod 10" "(a div 100) mod 10 = (b div 100) mod 10" "(a div 10) mod 10 = (b div 10) mod 10" "(a) mod 10 = (b) mod 10"
    by (rule digit_inj, rule d)+
  have ba: "0 \<le> a div 100000" "a div 100000 < 10" using assms(2,3) by auto
  have bb: "0 \<le> b div 100000" "b div 100000 < 10" using assms(4,5) by auto
  have "a div 100000 = b div 100000"
    using e(1) ba bb by (rule top_digit)
  then have "a div 10000 div 10 = b div 10000 div 10" by (simp only: div_steps(4)[symmetric])
  then have "a div 10000 = b div 10000" using e(2) by (rule div_mod_same)
  then have "a div 1000 div 10 = b div 1000 div 10" by (simp only: div_steps(3)[symmetric])
  then have "a div 1000 = b div 1000" using e(3) by (rule div_mod_same)
  then have "a div 100 div 10 = b div 100 div 10" by (simp only: div_steps(2)[symmetric])
  then have "a div 100 = b div 100" using e(4) by (rule div_mod_same)
  then have "a div 10 div 10 = b div 10 div 10" by (simp only: div_steps(1)[symmetric])
  then have "a div 10 = b div 10" using e(5) by (rule div_mod_same)
  then show ?thesis using e(6) by (rule div_mod_same)
qed

lemma pad_lengths: "length (pad2 n) = 2" "length (pad4 n) = 4" "length (pad6 n) = 6"
  by (simp_all add: pad2_def pad4_def pad6_def)

lemma year_str_length:
  "length (year_str y) = (if 0 \<le> y \<and> y \<le> 9999 then 4 else 7)"
  by (simp add: year_str_def pad_lengths)

lemma year_str_inj:
  assumes e: "year_str a = year_str b" and a: "\<bar>a\<bar> \<le> 999999" and b: "\<bar>b\<bar> \<le> 999999"
  shows "a = b"
proof (cases "0 \<le> a \<and> a \<le> 9999")
  case True
  then have "length (year_str a) = 4" by (simp add: year_str_length)
  with e have "length (year_str b) = 4" by simp
  then have bb: "0 \<le> b \<and> b \<le> 9999" by (simp add: year_str_length split: if_splits)
  with True e have "pad4 a = pad4 b" by (simp add: year_str_def)
  with True bb show ?thesis by (intro pad4_inj) auto
next
  case False
  then have "length (year_str a) = 7" by (simp add: year_str_length)
  with e have "length (year_str b) = 7" by simp
  then have bb: "\<not> (0 \<le> b \<and> b \<le> 9999)" by (simp add: year_str_length split: if_splits)
  from False bb e have s: "(a < 0) = (b < 0)" and p: "pad6 \<bar>a\<bar> = pad6 \<bar>b\<bar>"
    by (auto simp: year_str_def split: if_splits)
  from p a b have "\<bar>a\<bar> = \<bar>b\<bar>" by (intro pad6_inj) auto
  with s show ?thesis by auto
qed

lemma date_str_inj:
  assumes e: "date_str (y, m, d) = date_str (y', m', d')"
    and "\<bar>y\<bar> \<le> 999999" "\<bar>y'\<bar> \<le> 999999"
    and "0 \<le> m" "m < 100" "0 \<le> m'" "m' < 100"
    and "0 \<le> d" "d < 100" "0 \<le> d'" "d' < 100"
  shows "y = y' \<and> m = m' \<and> d = d'"
proof -
  from e have "length (date_str (y, m, d)) = length (date_str (y', m', d'))" by simp
  then have l: "length (year_str y) = length (year_str y')"
    by (simp add: date_str_def pad_lengths)
  from e l have "year_str y = year_str y'" and r: "pad2 m @ ''-'' @ pad2 d = pad2 m' @ ''-'' @ pad2 d'"
    by (simp_all add: date_str_def)
  then have y: "y = y'" using assms(2,3) by (intro year_str_inj)
  from r have "pad2 m = pad2 m'" "pad2 d = pad2 d'" by (simp_all add: pad_lengths)
  then have "m = m'" "d = d'" using assms(4-11) by (auto intro: pad2_inj)
  with y show ?thesis by simp
qed

lemma split_on_hd: "c \<notin> set a \<Longrightarrow> hd (split_on c (a @ c # b)) = a"
  by (induction a) (auto simp: Let_def)

lemma dash_plus_not_T: "CHR ''T'' \<notin> set ''0123456789''"
  by simp

lemma digit_not_T: "digit n \<noteq> CHR ''T''" "CHR ''T'' \<noteq> digit n"
  using digit_in[of n] dash_plus_not_T by metis+

lemma date_str_no_T: "CHR ''T'' \<notin> set (date_str ymd)"
  by (cases ymd) (auto simp: date_str_def year_str_def pad2_def pad4_def pad6_def digit_not_T)

lemma getDateString_date_str:
  "getDateString t = date_str (civil_from_days (t div msPerDay))"
  unfolding getDateString_def toISOString_def
  using split_on_hd[OF date_str_no_T] by simp

lemma getDateString_inj:
  assumes v: "valid_time t" and v': "valid_time t'"
    and e: "getDateString t = getDateString t'"
  shows "t div msPerDay = t' div msPerDay"
proof -
  from civil_from_days_range[of "t div msPerDay"] obtain y m d where
    c: "civil_from_days (t div msPerDay) = (y, m, d)"
    and r: "1 \<le> m" "m \<le> 12" "1 \<le> d" "d \<le> 31" by blast
  from civil_from_days_range[of "t' div msPerDay"] obtain y' m' d' where
    c': "civil_from_days (t' div msPerDay) = (y', m', d')"
    and r': "1 \<le> m'" "m' \<le> 12" "1 \<le> d'" "d' \<le> 31" by blast
  from valid_day[OF v] c have yb: "\<bar>y\<bar> \<le> 999999" by (intro valid_year[of _ y m d]) auto
  from valid_day[OF v'] c' have yb': "\<bar>y'\<bar> \<le> 999999" by (intro valid_year[of _ y' m' d']) auto
  from e have "date_str (y, m, d) = date_str (y', m', d')"
    by (simp add: getDateString_date_str c c')
  then have "y = y' \<and> m = m' \<and> d = d'"
    using yb yb' r r' by (intro date_str_inj) auto
  with c c' have "civil_from_days (t div msPerDay) = civil_from_days (t' div msPerDay)" by simp
  then show ?thesis by (rule civil_from_days_inj)
qed

lemma day_before: "(t - 86400000) div msPerDay = t div msPerDay - 1"
  unfolding msPerDay_def by auto

lemma yesterday_differs:
  assumes "valid_time t" "valid_time (t - 86400000)"
  shows "getDateString (t - 86400000) \<noteq> getDateString t"
proof
  assume "getDateString (t - 86400000) = getDateString t"
  from getDateString_inj[OF assms(2) assms(1) this] show False
    by (simp add: day_before)
qed

lemma older_differs:
  assumes "valid_time t" "valid_time (t - 86400000)" "valid_time s"
    and "s div msPerDay < t div msPerDay - 1"
  shows "getDateString s \<noteq> getDateString t \<and> getDateString s \<noteq> getDateString (t - 86400000)"
proof -
  have "getDateString s \<noteq> getDateString t"
  proof
    assume "getDateString s = getDateString t"
    from getDateString_inj[OF assms(3) assms(1) this] assms(4) show False by simp
  qed
  moreover have "getDateString s \<noteq> getDateString (t - 86400000)"
  proof
    assume "getDateString s = getDateString (t - 86400000)"
    from getDateString_inj[OF assms(3) assms(2) this] assms(4) show False
      by (simp add: day_before)
  qed
  ultimately show ?thesis by simp
qed

section \<open>Properties of \<open>updateStreak\<close>\<close>

lemma updateStreak_today:
  assumes "lastActiveDate (getStreakData w) = Some (getDateString (clock w))"
  shows "updateStreak w = (currentStreak (getStreakData w), w)"
  using assms by (simp add: updateStreak_def Let_def)

lemma updateStreak_yesterday:
  assumes "lastActiveDate (getStreakData w) = Some (getDateString (clock w - 86400000))"
    and "getDateString (clock w - 86400000) \<noteq> getDateString (clock w)"
  shows "updateStreak w =
     (currentStreak (getStreakData w) + 1,
      w\<lparr>streakData := Some \<lparr>currentStreak = currentStreak (getStreakData w) + 1,
                              lastActiveDate = Some (getDateString (clock w))\<rparr>\<rparr>)"
  using assms by (simp add: updateStreak_def Let_def)

lemma updateStreak_reset:
  assumes "lastActiveDate (getStreakData w) \<noteq> Some (getDateString (clock w))"
    and "lastActiveDate (getStreakData w) \<noteq> Some (getDateString (clock w - 86400000))"
  shows "updateStreak w =
     (1, w\<lparr>streakData := Some \<lparr>currentStreak = 1,
                                 lastActiveDate = Some (getDateString (clock w))\<rparr>\<rparr>)"
  using assms by (simp add: updateStreak_def Let_def)

lemma updateStreak_after:
  "lastActiveDate (getStreakData (snd (updateStreak w))) = Some (getDateString (clock w))
   \<and> clock (snd (updateStreak w)) = clock w
   \<and> currentStreak (getStreakData (snd (updateStreak w))) = fst (updateStreak w)"
  by (simp add: updateStreak_def Let_def getStreakData_def)

lemma updateStreak_twice:
  "updateStreak (snd (updateStreak w)) = (fst (updateStreak w), snd (updateStreak w))"
proof -
  let ?w' = "snd (updateStreak w)"
  from updateStreak_after[of w]
  have "lastActiveDate (getStreakData ?w') = Some (getDateString (clock ?w'))"
    and c: "currentStreak (getStreakData ?w') = fst (updateStreak w)" by simp_all
  from updateStreak_today[OF this(1)] c show ?thesis by simp
qed

text \<open>
  C9. For every stored streak and every clock value that a \<open>Date\<close> can hold (today, and
  the instant 24 hours earlier): when the last active date is today's date, \<open>updateStreak\<close>
  returns the count and leaves the state as it was; when it is yesterday's date, the call
  returns the count plus one; when it is null, or the date of a day before yesterday, the
  call returns 1; in the last two cases the new count is stored with today's date. A second
  call at the same instant returns the same count and changes nothing. In particular a
  streak of 3 last active yesterday becomes 4 with today's date, a second call still gives
  4, and a streak last active 10 days ago is reset to 1.
\<close>

theorem updateStreak_cases:
  assumes v: "valid_time (clock w)" and vy: "valid_time (clock w - 86400000)"
  shows "(lastActiveDate (getStreakData w) = Some (getDateString (clock w)) \<longrightarrow>
            updateStreak w = (currentStreak (getStreakData w), w))
       \<and> (lastActiveDate (getStreakData w) = Some (getDateString (clock w - 86400000)) \<longrightarrow>
            updateStreak w =
              (currentStreak (getStreakData w) + 1,
               w\<lparr>streakData := Some \<lparr>currentStreak = currentStreak (getStreakData w) + 1,
                                       lastActiveDate = Some (getDateString (clock w))\<rparr>\<rparr>))
       \<and> (lastActiveDate (getStreakData w) = None
            \<or> (\<exists>s. valid_time s \<and> s div msPerDay < clock w div msPerDay - 1
                   \<and> lastActiveDate (getStreakData w) = Some (getDateString s)) \<longrightarrow>
            updateStreak w =
              (1, w\<lparr>streakData := Some \<lparr>currentStreak = 1,
                                          lastActiveDate = Some (getDateString (clock w))\<rparr>\<rparr>))
       \<and> updateStreak (snd (updateStreak w)) = (fst (updateStreak w), snd (updateStreak w))
       \<and> (streakData w =
             Some \<lparr>currentStreak = 3,
                   lastActiveDate = Some (getDateString (clock w - 86400000))\<rparr> \<longrightarrow>
            fst (updateStreak w) = 4
            \<and> streakData (snd (updateStreak w)) =
                Some \<lparr>currentStreak = 4, lastActiveDate = Some (getDateString (clock w))\<rparr>
            \<and> fst (updateStreak (snd (updateStreak w))) = 4)
       \<and> (valid_time (clock w - 10 * 86400000)
            \<and> lastActiveDate (getStreakData w) = Some (getDateString (clock w - 10 * 86400000)) \<longrightarrow>
            fst (updateStreak w) = 1
            \<and> streakData (snd (updateStreak w)) =
                Some \<lparr>currentStreak = 1, lastActiveDate = Some (getDateString (clock w))\<rparr>)"
proof -
  let ?today = "getDateString (clock w)"
  let ?yest = "getDateString (clock w - 86400000)"
  let ?last = "lastActiveDate (getStreakData w)"
  let ?reset = "(1::int, w\<lparr>streakData := Some \<lparr>currentStreak = 1, lastActiveDate = Some ?today\<rparr>\<rparr>)"
  note ne = yesterday_differs[OF v vy]
  have c1: "?last = Some ?today \<longrightarrow> updateStreak w = (currentStreak (getStreakData w), w)"
    using updateStreak_today by blast
  have c2: "?last = Some ?yest \<longrightarrow>
            updateStreak w =
              (currentStreak (getStreakData w) + 1,
               w\<lparr>streakData := Some \<lparr>currentStreak = currentStreak (getStreakData w) + 1,
                                       lastActiveDate = Some ?today\<rparr>\<rparr>)"
    using updateStreak_yesterday ne by blast
  have old: "updateStreak w = ?reset"
    if "valid_time s" "s div msPerDay < clock w div msPerDay - 1" "?last = Some (getDateString s)"
    for s
  proof -
    from older_differs[OF v vy that(1,2)] that(3)
    have "?last \<noteq> Some ?today" "?last \<noteq> Some ?yest" by simp_all
    then show ?thesis by (rule updateStreak_reset)
  qed
  have null: "updateStreak w = ?reset" if "?last = None"
    using that by (intro updateStreak_reset) simp_all
  have c3: "?last = None
            \<or> (\<exists>s. valid_time s \<and> s div msPerDay < clock w div msPerDay - 1
                   \<and> ?last = Some (getDateString s)) \<longrightarrow> updateStreak w = ?reset"
    using old null by blast
  have c4: "updateStreak (snd (updateStreak w)) = (fst (updateStreak w), snd (updateStreak w))"
    by (rule updateStreak_twice)
  have c5: "streakData w = Some \<lparr>currentStreak = 3, lastActiveDate = Some ?yest\<rparr> \<longrightarrow>
            fst (updateStreak w) = 4
            \<and> streakData (snd (updateStreak w)) =
                Some \<lparr>currentStreak = 4, lastActiveDate = Some ?today\<rparr>
            \<and> fst (updateStreak (snd (updateStreak w))) = 4"
  proof
    assume s: "streakData w = Some \<lparr>currentStreak = 3, lastActiveDate = Some ?yest\<rparr>"
    then have g: "?last = Some ?yest" "currentStreak (getStreakData w) = 3"
      by (simp_all add: getStreakData_def)
    from updateStreak_yesterday[OF g(1) ne] g(2)
    have u: "updateStreak w =
       (4, w\<lparr>streakData := Some \<lparr>currentStreak = 4, lastActiveDate = Some ?today\<rparr>\<rparr>)"
      by simp
    with c4 show "fst (updateStreak w) = 4
            \<and> streakData (snd (updateStreak w)) =
                Some \<lparr>currentStreak = 4, lastActiveDate = Some ?today\<rparr>
            \<and> fst (updateStreak (snd (updateStreak w))) = 4"
      by simp
  qed
  have c6: "valid_time (clock w - 10 * 86400000)
            \<and> ?last = Some (getDateString (clock w - 10 * 86400000)) \<longrightarrow>
            fst (updateStreak w) = 1
            \<and> streakData (snd (updateStreak w)) =
                Some \<lparr>currentStreak = 1, lastActiveDate = Some ?today\<rparr>"
  proof
    assume a: "valid_time (clock w - 10 * 86400000)
            \<and> ?last = Some (getDateString (clock w - 10 * 86400000))"
    have "(clock w - 10 * 86400000) div msPerDay < clock w div msPerDay - 1"
      unfolding msPerDay_def by auto
    with a old[of "clock w - 10 * 86400000"] have "updateStreak w = ?reset" by blast
    then show "fst (updateStreak w) = 1
            \<and> streakData (snd (updateStreak w)) =
                Some \<lparr>currentStreak = 1, lastActiveDate = Some ?today\<rparr>"
      by simp
  qed
  from c1 c2 c3 c4 c5 c6 show ?thesis by (intro conjI)
qed

lemma sample_days:
  "getDateString (1793707200000 - 86400000) = ''2026-11-02''"
  "getDateString (1793707200000 - 10 * 86400000) = ''2026-10-24''"
  by code_simp+

theorem updateStreak_cases_witness:
  "valid_time 1793707200000 \<and> valid_time (1793707200000 - 86400000)
   \<and> getDateString 1793707200000 = ''2026-11-03''
   \<and> fst (updateStreak (streak_world
        (Some \<lparr>currentStreak = 3, lastActiveDate = Some ''2026-11-02''\<rparr>))) = 4
   \<and> streakData (snd (updateStreak (streak_world
        (Some \<lparr>currentStreak = 3, lastActiveDate = Some ''2026-11-02''\<rparr>)))) =
       Some \<lparr>currentStreak = 4, lastActiveDate = Some ''2026-11-03''\<rparr>
   \<and> fst (updateStreak (snd (updateStreak (streak_world
        (Some \<lparr>currentStreak = 3, lastActiveDate = Some ''2026-11-02''\<rparr>))))) = 4
   \<and> fst (updateStreak (streak_world
        (Some \<lparr>currentStreak = 7, lastActiveDate = Some ''2026-10-24''\<rparr>))) = 1
   \<and> updateStreak (streak_world
        (Some \<lparr>currentStreak = 5, lastActiveDate = Some ''2026-11-03''\<rparr>)) =
       (5, streak_world (Some \<lparr>currentStreak = 5, lastActiveDate = Some ''2026-11-03''\<rparr>))
   \<and> fst (updateStreak (streak_world None)) = 1"
proof -
  let ?A = "streak_world (Some \<lparr>currentStreak = 3, lastActiveDate = Some ''2026-11-02''\<rparr>)"
  let ?B = "streak_world (Some \<lparr>currentStreak = 7, lastActiveDate = Some ''2026-10-24''\<rparr>)"
  let ?C = "streak_world (Some \<lparr>currentStreak = 5, lastActiveDate = Some ''2026-11-03''\<rparr>)"
  let ?D = "streak_world None"
  have ck: "clock (streak_world sd) = 1793707200000" for sd
    by (simp add: streak_world_def sample_world_def)
  have sd: "streakData (streak_world sd) = sd" for sd
    by (simp add: streak_world_def)
  have v: "valid_time 1793707200000" "valid_time (1793707200000 - 86400000)"
    "valid_time (1793707200000 - 10 * 86400000)"
    by (simp_all add: valid_time_def)
  note TA = updateStreak_cases [of ?A, unfolded ck sample_today sample_days, OF v(1) v(2)]
  note TB = updateStreak_cases [of ?B, unfolded ck sample_today sample_days, OF v(1) v(2)]
  note TC = updateStreak_cases [of ?C, unfolded ck sample_today sample_days, OF v(1) v(2)]
  note TD = updateStreak_cases [of ?D, unfolded ck sample_today sample_days, OF v(1) v(2)]
  have a: "streakData ?A = Some \<lparr>currentStreak = 3, lastActiveDate = Some ''2026-11-02''\<rparr>"
    by (rule sd)
  from TA a
  have ra: "fst (updateStreak ?A) = 4
     \<and> streakData (snd (updateStreak ?A)) =
         Some \<lparr>currentStreak = 4, lastActiveDate = Some ''2026-11-03''\<rparr>
     \<and> fst (updateStreak (snd (updateStreak ?A))) = 4"
    by blast
  have b: "lastActiveDate (getStreakData ?B) = Some ''2026-10-24''"
    by (simp add: getStreakData_def sd)
  from TB v(3) b
  have rb: "fst (updateStreak ?B) = 1" by blast
  have c: "lastActiveDate (getStreakData ?C) = Some ''2026-11-03''"
    "currentStreak (getStreakData ?C) = 5"
    by (simp_all add: getStreakData_def sd)
  from TC c
  have rc: "updateStreak ?C = (5, ?C)" by simp
  have d: "lastActiveDate (getStreakData ?D) = None"
    by (simp add: getStreakData_def sd)
  from TD d have rd: "fst (updateStreak ?D) = 1" by simp
  from v(1,2) sample_today ra rb rc rd show ?thesis by (intro conjI) simp_all
qed

end
